theory Spec2Isabelle
  imports
    Main
    "HOL-Library.Multiset"
    "HOL-Library.Sublist"
    "HOL-Library.Char_ord"
    "HOL-Library.List_Lexorder"
begin

section \<open>Python values\<close>

text \<open>
  The program reads JSON payloads of two web APIs. A field that the program orders,
  tests for truth or prints (a time, a subject, a display id) holds a JSON scalar:
  \<open>null\<close>, an integer or a string. Floats and booleans are not modelled. The other
  fields (an author, a recipient list, a content) hold any JSON value. A dictionary is
  an association list read with \<open>map_of\<close>. A key that may be absent from a dictionary is
  an \<open>option\<close> field: \<open>None\<close> is the absent key, \<open>Some SNone\<close> the key holding
  \<open>null\<close>.
\<close>

datatype scalar = SNone | SInt int | SStr string

datatype pyval = PScalar scalar | PList "pyval list" | PDict "(string \<times> pyval) list"

datatype exn = KeyError | TypeError | AttributeError | ValueError | UnboundLocalError
  | External string

abbreviation PNone :: pyval where "PNone \<equiv> PScalar SNone"

abbreviation PStr :: "string \<Rightarrow> pyval" where "PStr s \<equiv> PScalar (SStr s)"

text \<open>\<open>d.get(k)\<close> and \<open>d.get(k, default)\<close> on a key that may be absent.\<close>

definition get_or :: "'a \<Rightarrow> 'a option \<Rightarrow> 'a" where
  "get_or dflt v = (case v of None \<Rightarrow> dflt | Some x \<Rightarrow> x)"

definition dict_get :: "(string \<times> pyval) list \<Rightarrow> string \<Rightarrow> pyval \<Rightarrow> pyval" where
  "dict_get d k dflt = get_or dflt (map_of d k)"

text \<open>Python's truth value of a scalar: \<open>None\<close>, \<open>0\<close> and the empty string are false.\<close>

fun truthy :: "scalar \<Rightarrow> bool" where
  "truthy SNone = False"
| "truthy (SInt n) = (n \<noteq> 0)"
| "truthy (SStr s) = (s \<noteq> [])"

text \<open>\<open>str(x)\<close>: the decimal digits of an integer, a string as it is.\<close>

definition digit_char :: "nat \<Rightarrow> char" where
  "digit_char d = ''0123456789'' ! d"

function str_of_nat :: "nat \<Rightarrow> string" where
  "str_of_nat n = (if n < 10 then [digit_char n] else str_of_nat (n div 10) @ [digit_char (n mod 10)])"
  by pat_completeness auto
termination
  by (relation "measure (\<lambda>n. n)") auto

declare str_of_nat.simps [simp del]

fun py_str :: "scalar \<Rightarrow> string" where
  "py_str SNone = ''None''"
| "py_str (SInt i) = (if i < 0 then CHR ''-'' # str_of_nat (nat (- i)) else str_of_nat (nat i))"
| "py_str (SStr s) = s"

text \<open>
  \<open>a < b\<close> on scalars: integers by value, strings lexicographically by code point,
  anything else raises \<open>TypeError\<close>. \<open>a > b\<close> is the reflected call.
\<close>

fun py_lt :: "scalar \<Rightarrow> scalar \<Rightarrow> exn + bool" where
  "py_lt (SInt a) (SInt b) = Inr (a < b)"
| "py_lt (SStr a) (SStr b) = Inr (a < b)"
| "py_lt _ _ = Inl TypeError"

definition py_gt :: "scalar \<Rightarrow> scalar \<Rightarrow> exn + bool" where
  "py_gt a b = py_lt b a"

text \<open>\<open>a <= b\<close> holding: what "non-decreasing" means for two time values.\<close>

fun time_le :: "scalar \<Rightarrow> scalar \<Rightarrow> bool" where
  "time_le (SInt a) (SInt b) = (a \<le> b)"
| "time_le (SStr a) (SStr b) = (a \<le> b)"
| "time_le _ _ = False"

section \<open>Conversations and notes\<close>

text \<open>
  A conversation entry and a note entry as the source API returns them
  (\<open>QUERY_GET_TICKET_CONVERSATIONS\<close>, \<open>QUERY_GET_TICKET_NOTES\<close>), with the keys the
  program reads.
\<close>

record conversation =
  c_type :: "pyval option"
  c_content :: "pyval option"
  c_user :: "pyval option"
  c_time :: "scalar option"
  c_toUsers :: "pyval option"

record note_entry =
  n_content :: "pyval option"
  n_addedBy :: "pyval option"
  n_addedOn :: "scalar option"

subsection \<open>\<open>get_assigned_tech_and_user\<close>\<close>

text \<open>
  \<open>max(tech_replies, key=lambda x: x['time'])\<close>: the builtin keeps the first item and
  its key, and replaces them by a later item whose key is greater (\<open>>\<close>). A missing
  \<open>'time'\<close> raises \<open>KeyError\<close>, keys that do not compare raise \<open>TypeError\<close>.
\<close>

fun max_loop :: "conversation \<Rightarrow> scalar \<Rightarrow> conversation list \<Rightarrow> exn + conversation" where
  "max_loop mi mv [] = Inr mi"
| "max_loop mi mv (x # xs) =
     (case c_time x of
        None \<Rightarrow> Inl KeyError
      | Some v \<Rightarrow>
          (case py_gt v mv of
             Inl e \<Rightarrow> Inl e
           | Inr True \<Rightarrow> max_loop x v xs
           | Inr False \<Rightarrow> max_loop mi mv xs))"

fun max_by_time :: "conversation list \<Rightarrow> exn + conversation" where
  "max_by_time [] = Inl ValueError"
| "max_by_time (x # xs) =
     (case c_time x of None \<Rightarrow> Inl KeyError | Some v \<Rightarrow> max_loop x v xs)"

definition is_tech_reply :: "conversation \<Rightarrow> bool" where
  "is_tech_reply conv = (get_or PNone (c_type conv) = PStr ''TECH_REPLY'')"

definition tech_replies_of :: "conversation list \<Rightarrow> conversation list" where
  "tech_replies_of conversations = filter is_tech_reply conversations"

text \<open>The \<open>except Exception\<close> of the function turns every raise into \<open>(None, [])\<close>.\<close>

definition get_assigned_tech_and_user :: "conversation list \<Rightarrow> pyval \<times> pyval" where
  "get_assigned_tech_and_user conversations =
     (let tech_replies = tech_replies_of conversations in
      if tech_replies \<noteq> [] then
        (case max_by_time tech_replies of
           Inl e \<Rightarrow> (PNone, PList [])
         | Inr oldest_tech_reply \<Rightarrow>
             (get_or PNone (c_user oldest_tech_reply),
              get_or (PList []) (c_toUsers oldest_tech_reply)))
      else (PNone, PList []))"

text \<open>The tech replies all carry an integer time, or all carry a string time.\<close>

definition int_time :: "scalar option \<Rightarrow> bool" where
  "int_time t = (case t of Some (SInt _) \<Rightarrow> True | _ \<Rightarrow> False)"

definition str_time :: "scalar option \<Rightarrow> bool" where
  "str_time t = (case t of Some (SStr _) \<Rightarrow> True | _ \<Rightarrow> False)"

definition comparable_times :: "conversation list \<Rightarrow> bool" where
  "comparable_times cs = (list_all (\<lambda>c. int_time (c_time c)) cs \<or> list_all (\<lambda>c. str_time (c_time c)) cs)"

text \<open>The time of an entry whose key is known to be present.\<close>

definition time_of :: "conversation \<Rightarrow> scalar" where
  "time_of c = get_or SNone (c_time c)"

subsection \<open>\<open>combine_notes_and_conversations\<close>\<close>

text \<open>
  One entry of the merged list (the dictionary with the keys \<open>type\<close>, \<open>content\<close>,
  \<open>user\<close>, \<open>time\<close>), and one element of the returned list: an entry, or the string
  that stands for "no history".
\<close>

record item =
  i_type :: pyval
  i_content :: pyval
  i_user :: pyval
  i_time :: scalar

datatype tl_entry = Entry item | NoHistory string

text \<open>
  A note's author is \<open>note.get("addedBy", {}).get("name", "Unknown")\<close>: an absent key
  gives the empty dictionary, a value that is not a dictionary has no \<open>get\<close> and the
  call raises \<open>AttributeError\<close>.
\<close>

definition note_item :: "note_entry \<Rightarrow> exn + item" where
  "note_item note =
     (case get_or (PDict []) (n_addedBy note) of
        PDict d \<Rightarrow>
          Inr \<lparr> i_type = PStr ''NOTE'',
                i_content = get_or (PStr ''No Content'') (n_content note),
                i_user = dict_get d ''name'' (PStr ''Unknown''),
                i_time = get_or (SStr ''Unknown Time'') (n_addedOn note) \<rparr>
      | _ \<Rightarrow> Inl AttributeError)"

fun note_items :: "note_entry list \<Rightarrow> exn + item list" where
  "note_items [] = Inr []"
| "note_items (n # ns) =
     (case note_item n of
        Inl e \<Rightarrow> Inl e
      | Inr i \<Rightarrow> (case note_items ns of Inl e \<Rightarrow> Inl e | Inr is \<Rightarrow> Inr (i # is)))"

text \<open>
  A conversation's author: \<open>user_info\<close> is replaced by the empty dictionary unless it
  is a dictionary, then read with \<open>get("name", "Unknown")\<close>.
\<close>

definition user_info_of :: "conversation \<Rightarrow> (string \<times> pyval) list" where
  "user_info_of conv = (case c_user conv of Some (PDict d) \<Rightarrow> d | _ \<Rightarrow> [])"

definition conv_item :: "conversation \<Rightarrow> item" where
  "conv_item conv =
     \<lparr> i_type = get_or (PStr ''Unknown'') (c_type conv),
       i_content = get_or (PStr ''No Content'') (c_content conv),
       i_user = dict_get (user_info_of conv) ''name'' (PStr ''Unknown''),
       i_time = get_or (SStr ''Unknown Time'') (c_time conv) \<rparr>"

text \<open>
  \<open>merged_items.sort(key=lambda x: x["time"])\<close>. The builtin sort is stable, ascending,
  asks only \<open><\<close> of two keys and stops at the first comparison that raises. It is
  written here as the insertion sort with these properties: an entry goes before the
  first one that is not smaller.
\<close>

fun insort_time :: "item \<Rightarrow> item list \<Rightarrow> exn + item list" where
  "insort_time x [] = Inr [x]"
| "insort_time x (y # ys) =
     (case py_lt (i_time y) (i_time x) of
        Inl e \<Rightarrow> Inl e
      | Inr True \<Rightarrow> (case insort_time x ys of Inl e \<Rightarrow> Inl e | Inr zs \<Rightarrow> Inr (y # zs))
      | Inr False \<Rightarrow> Inr (x # y # ys))"

fun sort_by_time :: "item list \<Rightarrow> exn + item list" where
  "sort_by_time [] = Inr []"
| "sort_by_time (x # xs) =
     (case sort_by_time xs of Inl e \<Rightarrow> Inl e | Inr ys \<Rightarrow> insort_time x ys)"

definition no_history :: string where
  "no_history = ''No notes or conversations found.''"

definition combine_notes_and_conversations ::
  "note_entry list \<Rightarrow> conversation list \<Rightarrow> exn + tl_entry list" where
  "combine_notes_and_conversations notes conversations =
     (case note_items notes of
        Inl e \<Rightarrow> Inl e
      | Inr from_notes \<Rightarrow>
          (case sort_by_time (from_notes @ map conv_item conversations) of
             Inl e \<Rightarrow> Inl e
           | Inr merged_items \<Rightarrow>
               Inr (if merged_items \<noteq> [] then map Entry merged_items
                    else [NoHistory no_history])))"

text \<open>Two entries, and two elements of a returned list, in non-decreasing time order.\<close>

definition item_le :: "item \<Rightarrow> item \<Rightarrow> bool" where
  "item_le a b = time_le (i_time a) (i_time b)"

fun entry_le :: "tl_entry \<Rightarrow> tl_entry \<Rightarrow> bool" where
  "entry_le (Entry a) (Entry b) = time_le (i_time a) (i_time b)"
| "entry_le _ _ = False"

text \<open>
  The inputs on which the function returns: every note's \<open>addedBy\<close> is absent or a
  dictionary, and the time keys of the merged entries are all integers or all strings
  (the default \<open>"Unknown Time"\<close> is a string).
\<close>

definition note_ok :: "note_entry \<Rightarrow> bool" where
  "note_ok note = (case n_addedBy note of None \<Rightarrow> True | Some (PDict d) \<Rightarrow> True | _ \<Rightarrow> False)"

definition is_int :: "scalar \<Rightarrow> bool" where
  "is_int t = (case t of SInt _ \<Rightarrow> True | _ \<Rightarrow> False)"

definition is_str :: "scalar \<Rightarrow> bool" where
  "is_str t = (case t of SStr _ \<Rightarrow> True | _ \<Rightarrow> False)"

definition note_time :: "note_entry \<Rightarrow> scalar" where
  "note_time note = get_or (SStr ''Unknown Time'') (n_addedOn note)"

definition conv_time :: "conversation \<Rightarrow> scalar" where
  "conv_time conv = get_or (SStr ''Unknown Time'') (c_time conv)"

definition uniform_times :: "note_entry list \<Rightarrow> conversation list \<Rightarrow> bool" where
  "uniform_times notes conversations =
     (list_all is_int (map note_time notes @ map conv_time conversations) \<or>
      list_all is_str (map note_time notes @ map conv_time conversations))"

definition user_is_dict :: "conversation \<Rightarrow> bool" where
  "user_is_dict conv = (case c_user conv of Some (PDict d) \<Rightarrow> True | _ \<Rightarrow> False)"

text \<open>
  The input of the repository's test \<open>test_earliest_tech_reply_is_chosen\<close>, and a ticket
  history with one note, a description and a reply whose \<open>user\<close> is \<open>null\<close>.
\<close>

definition test_conversations :: "conversation list" where
  "test_conversations =
     [\<lparr> c_type = Some (PStr ''CUSTOMER_REPLY''), c_content = None,
         c_user = Some (PDict [(''name'', PStr ''Customer'')]), c_time = Some (SInt 0),
         c_toUsers = Some (PList [PDict [(''user'', PStr ''Tech'')]]) \<rparr>,
      \<lparr> c_type = Some (PStr ''TECH_REPLY''), c_content = None,
         c_user = Some (PDict [(''name'', PStr ''Tech2'')]), c_time = Some (SInt 2),
         c_toUsers = Some (PList [PDict [(''user'', PStr ''User2'')]]) \<rparr>,
      \<lparr> c_type = Some (PStr ''TECH_REPLY''), c_content = None,
         c_user = Some (PDict [(''name'', PStr ''Tech1'')]), c_time = Some (SInt 1),
         c_toUsers = Some (PList [PDict [(''user'', PStr ''User1'')]]) \<rparr>]"

definition sample_notes :: "note_entry list" where
  "sample_notes =
     [\<lparr> n_content = Some (PStr ''called back''),
         n_addedBy = Some (PDict [(''name'', PStr ''Ann'')]),
         n_addedOn = Some (SStr ''2024-05-02'') \<rparr>]"

definition sample_description :: conversation where
  "sample_description =
     \<lparr> c_type = Some (PStr ''DESCRIPTION''), c_content = Some (PStr ''Printer broken''),
       c_user = Some (PDict [(''name'', PStr ''Bob'')]), c_time = Some (SStr ''2024-05-01''),
       c_toUsers = None \<rparr>"

definition sample_reply :: conversation where
  "sample_reply =
     \<lparr> c_type = Some (PStr ''TECH_REPLY''), c_content = Some (PStr ''On my way''),
       c_user = Some PNone, c_time = Some (SStr ''2024-05-03''),
       c_toUsers = Some (PList []) \<rparr>"

definition sample_conversations :: "conversation list" where
  "sample_conversations = [sample_reply, sample_description]"

section \<open>Identity reconciliation\<close>

text \<open>
  A source ticket as \<open>extract_ticket_details\<close> and \<open>get_all_clients_with_tickets\<close> build
  it, and a destination ticket as \<open>extract_ticket_subjects_and_dates\<close> hands it over.
  \<open>t_notes\<close> and \<open>t_conversations\<close> are \<open>None\<close> when the key is absent or does not hold
  a list. The key \<open>ticketId\<close> of a source ticket, which no function reads again, is
  left out. The dictionary of a client's tickets is the list of its items in insertion
  order.
\<close>

record ticket_info =
  t_displayId :: "scalar option"
  t_subject :: "scalar option"
  t_status :: "pyval option"
  t_priority :: "pyval option"
  t_created_time :: "scalar option"
  t_notes :: "note_entry list option"
  t_conversations :: "conversation list option"
  t_assigned_tech :: "pyval option"
  t_contact :: "pyval option"
  t_description :: "pyval option"

record syncro_ticket =
  s_subject :: "scalar option"
  s_created_at :: "scalar option"
  s_ticket_id :: "scalar option"

text \<open>\<open>if x not in matched_tickets: matched_tickets.append(x)\<close>\<close>

definition append_new :: "scalar \<Rightarrow> scalar list \<Rightarrow> scalar list" where
  "append_new x matched = (if x \<notin> set matched then matched @ [x] else matched)"

subsection \<open>\<open>compare_tickets_by_subject_and_date\<close>\<close>

text \<open>
  The inner loop over the destination tickets for one source ticket. After a match the
  log line reads \<open>syncro_ticket['ticket_id']\<close>: a destination ticket without that key
  raises \<open>KeyError\<close> there, after the identifier was appended, and the handler of the
  source ticket ends its scan.
\<close>

fun scan_subject_and_date ::
  "scalar \<Rightarrow> scalar \<Rightarrow> scalar \<Rightarrow> syncro_ticket list \<Rightarrow> scalar list \<Rightarrow> scalar list" where
  "scan_subject_and_date ticket_id subject created_time [] matched = matched"
| "scan_subject_and_date ticket_id subject created_time (t # ts) matched =
     (let syncro_subject = get_or SNone (s_subject t);
          syncro_created_at = get_or SNone (s_created_at t) in
      if \<not> truthy syncro_subject \<or> \<not> truthy syncro_created_at then
        scan_subject_and_date ticket_id subject created_time ts matched
      else if subject = syncro_subject \<and> created_time = syncro_created_at then
        (case s_ticket_id t of
           None \<Rightarrow> append_new ticket_id matched
         | Some _ \<Rightarrow>
             scan_subject_and_date ticket_id subject created_time ts (append_new ticket_id matched))
      else scan_subject_and_date ticket_id subject created_time ts matched)"

fun compare_loop_subject_and_date ::
  "(scalar \<times> ticket_info) list \<Rightarrow> syncro_ticket list \<Rightarrow> scalar list \<Rightarrow> scalar list" where
  "compare_loop_subject_and_date [] syncro_tickets matched = matched"
| "compare_loop_subject_and_date ((ticket_id, info) # rest) syncro_tickets matched =
     (let subject = get_or SNone (t_subject info);
          created_time = get_or SNone (t_created_time info) in
      if \<not> truthy subject \<or> \<not> truthy created_time then
        compare_loop_subject_and_date rest syncro_tickets matched
      else
        compare_loop_subject_and_date rest syncro_tickets
          (scan_subject_and_date ticket_id subject created_time syncro_tickets matched))"

definition compare_tickets_by_subject_and_date ::
  "(scalar \<times> ticket_info) list \<Rightarrow> syncro_ticket list \<Rightarrow> scalar list" where
  "compare_tickets_by_subject_and_date superops_tickets syncro_tickets =
     compare_loop_subject_and_date superops_tickets syncro_tickets []"

subsection \<open>\<open>compare_tickets_by_subject\<close>\<close>

text \<open>
  \<open>str(displayId) in syncro_subject\<close> is the substring test when the subject is a
  string. On a subject that is a non-zero integer \<open>in\<close> raises \<open>TypeError\<close>, and the
  handler of the source ticket ends its scan.
\<close>

fun scan_subject :: "scalar \<Rightarrow> syncro_ticket list \<Rightarrow> scalar list \<Rightarrow> scalar list" where
  "scan_subject displayId [] matched = matched"
| "scan_subject displayId (t # ts) matched =
     (let syncro_subject = get_or SNone (s_subject t) in
      if \<not> truthy syncro_subject then scan_subject displayId ts matched
      else
        (case syncro_subject of
           SStr s \<Rightarrow>
             if sublist (py_str displayId) s
             then scan_subject displayId ts (append_new displayId matched)
             else scan_subject displayId ts matched
         | _ \<Rightarrow> matched))"

fun compare_loop_subject ::
  "(scalar \<times> ticket_info) list \<Rightarrow> syncro_ticket list \<Rightarrow> scalar list \<Rightarrow> scalar list" where
  "compare_loop_subject [] syncro_tickets matched = matched"
| "compare_loop_subject ((ticket_id, info) # rest) syncro_tickets matched =
     (let subject = get_or SNone (t_subject info);
          displayId = get_or SNone (t_displayId info) in
      if \<not> truthy subject then compare_loop_subject rest syncro_tickets matched
      else if \<not> truthy displayId then compare_loop_subject rest syncro_tickets matched
      else compare_loop_subject rest syncro_tickets (scan_subject displayId syncro_tickets matched))"

definition compare_tickets_by_subject ::
  "(scalar \<times> ticket_info) list \<Rightarrow> syncro_ticket list \<Rightarrow> scalar list" where
  "compare_tickets_by_subject superops_tickets syncro_tickets =
     compare_loop_subject superops_tickets syncro_tickets []"

text \<open>A destination subject that is absent, \<open>null\<close>, \<open>0\<close> or a string.\<close>

definition subject_ok :: "syncro_ticket \<Rightarrow> bool" where
  "subject_ok t = (case get_or SNone (s_subject t) of SInt n \<Rightarrow> n = 0 | _ \<Rightarrow> True)"

text \<open>
  The two conditions of a match, for a source ticket and a destination ticket that
  passed the required-field checks.
\<close>

definition has_subject_and_date :: "ticket_info \<Rightarrow> bool" where
  "has_subject_and_date info =
     (truthy (get_or SNone (t_subject info)) \<and> truthy (get_or SNone (t_created_time info)))"

definition syncro_has_subject_and_date :: "syncro_ticket \<Rightarrow> bool" where
  "syncro_has_subject_and_date t =
     (truthy (get_or SNone (s_subject t)) \<and> truthy (get_or SNone (s_created_at t)))"

definition has_subject_and_display_id :: "ticket_info \<Rightarrow> bool" where
  "has_subject_and_display_id info =
     (truthy (get_or SNone (t_subject info)) \<and> truthy (get_or SNone (t_displayId info)))"

text \<open>
  The test the inner loops apply to one destination ticket: subject and creation time
  both present and equal to the source ticket's, and the printed display id occurring
  in a subject that is a string.
\<close>

definition subject_and_date_equal :: "scalar \<Rightarrow> scalar \<Rightarrow> syncro_ticket \<Rightarrow> bool" where
  "subject_and_date_equal subject created_time t =
     (syncro_has_subject_and_date t \<and> subject = get_or SNone (s_subject t) \<and>
      created_time = get_or SNone (s_created_at t))"

definition display_id_in_subject :: "scalar \<Rightarrow> syncro_ticket \<Rightarrow> bool" where
  "display_id_in_subject displayId t =
     (case s_subject t of Some (SStr s) \<Rightarrow> sublist (py_str displayId) s | _ \<Rightarrow> False)"

section \<open>Migration of one customer's tickets\<close>

subsection \<open>Collaborators and effects\<close>

text \<open>
  The creation time is parsed by the standard library
  (\<open>datetime.strptime(s, "%Y-%m-%dT%H:%M:%S%z")\<close>) into a date and time of day with a
  \<open>tzinfo\<close>. \<open>cutoff_date.replace(tzinfo=t.tzinfo)\<close> gives the cutoff the very
  \<open>tzinfo\<close> of the ticket's time, and \<open><\<close> on two datetimes that share their
  \<open>tzinfo\<close> compares year, month, day, hour, minute and second in this order (the
  format has no microseconds).
\<close>

record datetime =
  dt_year :: nat
  dt_month :: nat
  dt_day :: nat
  dt_hour :: nat
  dt_minute :: nat
  dt_second :: nat
  dt_tzinfo :: "int option"

definition cutoff_date :: datetime where
  "cutoff_date = \<lparr> dt_year = 2024, dt_month = 4, dt_day = 1, dt_hour = 0, dt_minute = 0,
                   dt_second = 0, dt_tzinfo = None \<rparr>"

definition replace_tzinfo :: "datetime \<Rightarrow> int option \<Rightarrow> datetime" where
  "replace_tzinfo d tz = d \<lparr> dt_tzinfo := tz \<rparr>"

definition dt_fields :: "datetime \<Rightarrow> nat list" where
  "dt_fields d = [dt_year d, dt_month d, dt_day d, dt_hour d, dt_minute d, dt_second d]"

definition dt_lt :: "datetime \<Rightarrow> datetime \<Rightarrow> bool" where
  "dt_lt a b = (dt_fields a < dt_fields b)"

text \<open>
  The arguments of \<open>syncro_prepare_ticket_json_superops\<close>, in the order of the call.
\<close>

record ticket_args =
  a_client :: string
  a_contact :: pyval
  a_ticket_id :: scalar
  a_subject :: string
  a_created_time :: pyval
  a_status :: pyval
  a_priority :: pyval
  a_assigned_tech :: pyval
  a_description :: pyval
  a_timeline :: "tl_entry list"

text \<open>
  The functions of the modules \<open>syncro_utils\<close>, \<open>syncro_read\<close> and \<open>syncro_write\<close> and
  the library's parser are parameters of the model. Each returns a value or raises.
  \<open>syncro_tickets_for\<close> is \<open>extract_ticket_subjects_and_dates\<close> after
  \<open>get_all_tickets_for_customer\<close>. The answer of \<open>syncro_create_ticket\<close> is \<open>None\<close> or
  a dictionary; \<open>strptime\<close> returns \<open>None\<close> where the library raises \<open>ValueError\<close>.
\<close>

record env =
  get_customer_id_by_name :: "string \<Rightarrow> exn + scalar"
  syncro_tickets_for :: "string \<Rightarrow> exn + syncro_ticket list"
  get_syncro_created_date :: "scalar \<Rightarrow> exn + pyval"
  syncro_prepare_ticket_json_superops :: "ticket_args \<Rightarrow> exn + (string \<times> pyval) list"
  strptime :: "string \<Rightarrow> datetime option"
  syncro_create_ticket :: "(string \<times> pyval) list \<Rightarrow> exn + (string \<times> pyval) list option"
  build_syncro_comment :: "item \<Rightarrow> exn + pyval"
  syncro_create_comment :: "pyval \<Rightarrow> pyval \<Rightarrow> exn + unit"

text \<open>
  What a run leaves behind: the calls that write to the destination, and the log
  records that tell the branches apart, each named after its level and its message.
  \<open>Compared d s b\<close> is the record of the test \<open>str(d) in s\<close> with outcome \<open>b\<close>
  ("Match found" or "NO MATCH found"). An event carries the values that tell which
  ticket it is about, not the text of the message. Records of the levels \<open>INFO\<close> and
  \<open>DEBUG\<close> that no branch depends on, and the records of the helper functions, are not
  part of the trace.
\<close>

datatype event =
    Compare_skipped_ticket scalar
  | Compare_skipped_syncro
  | Compared scalar string bool
  | Compare_error exn
  | Info_matched_ids "scalar list"
  | Warning_customer_not_found
  | Error_customer exn
  | Warning_missing_field scalar
  | Warning_already_exists scalar
  | Info_too_old scalar
  | Call_create_ticket "(string \<times> pyval) list"
  | Info_skip_description item
  | Call_create_comment pyval pyval
  | Error_comment exn
  | Error_ticket scalar exn

subsection \<open>The log of \<open>compare_tickets_by_subject\<close>\<close>

text \<open>
  The records the two loops of \<open>compare_tickets_by_subject\<close> write, in order; the
  control flow is that of \<open>scan_subject\<close> and \<open>compare_loop_subject\<close>.
\<close>

fun scan_subject_log :: "scalar \<Rightarrow> syncro_ticket list \<Rightarrow> event list" where
  "scan_subject_log displayId [] = []"
| "scan_subject_log displayId (t # ts) =
     (let syncro_subject = get_or SNone (s_subject t) in
      if \<not> truthy syncro_subject then Compare_skipped_syncro # scan_subject_log displayId ts
      else
        (case syncro_subject of
           SStr s \<Rightarrow> Compared displayId s (sublist (py_str displayId) s) # scan_subject_log displayId ts
         | _ \<Rightarrow> [Compare_error TypeError]))"

fun compare_tickets_by_subject_log ::
  "(scalar \<times> ticket_info) list \<Rightarrow> syncro_ticket list \<Rightarrow> event list" where
  "compare_tickets_by_subject_log [] syncro_tickets = []"
| "compare_tickets_by_subject_log ((ticket_id, info) # rest) syncro_tickets =
     (let subject = get_or SNone (t_subject info);
          displayId = get_or SNone (t_displayId info) in
      if \<not> truthy subject then
        Compare_skipped_ticket ticket_id # compare_tickets_by_subject_log rest syncro_tickets
      else if \<not> truthy displayId then
        Compare_skipped_ticket displayId # compare_tickets_by_subject_log rest syncro_tickets
      else scan_subject_log displayId syncro_tickets @
           compare_tickets_by_subject_log rest syncro_tickets)"

subsection \<open>\<open>process_individual_ticket\<close>\<close>

text \<open>\<open>ticket_info.get("subject", "") + f" {displayId}"\<close>: \<open>+\<close> is defined on two strings.\<close>

definition subject_with_id :: "ticket_info \<Rightarrow> exn + string" where
  "subject_with_id info =
     (case get_or (SStr []) (t_subject info) of
        SStr s \<Rightarrow> Inr (s @ CHR '' '' # py_str (get_or SNone (t_displayId info)))
      | _ \<Rightarrow> Inl TypeError)"

definition extract_assigned_tech :: "ticket_info \<Rightarrow> pyval" where
  "extract_assigned_tech info =
     (case t_assigned_tech info of
        Some (PDict d) \<Rightarrow> dict_get d ''name'' (PStr ''Unassigned'')
      | _ \<Rightarrow> PStr ''Unassigned'')"

definition extract_notes_and_conversations ::
  "ticket_info \<Rightarrow> note_entry list \<times> conversation list" where
  "extract_notes_and_conversations info = (get_or [] (t_notes info), get_or [] (t_conversations info))"

definition ticket_timeline :: "ticket_info \<Rightarrow> exn + tl_entry list" where
  "ticket_timeline info =
     (let (notes, conversations) = extract_notes_and_conversations info in
      if notes \<noteq> [] \<or> conversations \<noteq> [] then combine_notes_and_conversations notes conversations
      else Inr [NoHistory no_history])"

text \<open>
  The loop over the timeline. The test \<open>entry.get("type")\<close> stands outside the inner
  \<open>try\<close>: on the string of an empty history it raises \<open>AttributeError\<close> and ends the
  loop. Building or sending a comment stands inside: a raise is logged and the loop goes on.
  The result is the trace of the loop and the exception that ended it, if any.
\<close>

fun replay_timeline :: "env \<Rightarrow> pyval \<Rightarrow> tl_entry list \<Rightarrow> event list \<times> exn option" where
  "replay_timeline e created_ticket_id [] = ([], None)"
| "replay_timeline e created_ticket_id (NoHistory s # rest) = ([], Some AttributeError)"
| "replay_timeline e created_ticket_id (Entry entry # rest) =
     (let (evs, raised) = replay_timeline e created_ticket_id rest in
      if i_type entry = PStr ''DESCRIPTION'' then (Info_skip_description entry # evs, raised)
      else
        (case build_syncro_comment e entry of
           Inl x \<Rightarrow> (Error_comment x # evs, raised)
         | Inr formatted_comment \<Rightarrow>
             (case syncro_create_comment e formatted_comment created_ticket_id of
                Inl x \<Rightarrow>
                  (Call_create_comment formatted_comment created_ticket_id # Error_comment x # evs,
                   raised)
              | Inr _ \<Rightarrow> (Call_create_comment formatted_comment created_ticket_id # evs, raised))))"

text \<open>
  From the answer of \<open>syncro_create_ticket\<close> on: the comments are replayed when the answer
  is a dictionary with the key \<open>ticket\<close>, whose value must be a dictionary itself.
\<close>

definition after_create ::
  "env \<Rightarrow> (string \<times> pyval) list option \<Rightarrow> tl_entry list \<Rightarrow> event list \<times> exn option" where
  "after_create e created_ticket_response timeline =
     (case created_ticket_response of
        None \<Rightarrow> ([], None)
      | Some d \<Rightarrow>
          (case map_of d ''ticket'' of
             None \<Rightarrow> ([], None)
           | Some (PDict t) \<Rightarrow> replay_timeline e (dict_get t ''id'' PNone) timeline
           | Some _ \<Rightarrow> ([], Some AttributeError)))"

text \<open>
  The cutoff test and the creation. On the "too old" branch nothing is assigned to
  \<open>created_ticket_response\<close>, and the \<open>if\<close> that reads it next raises
  \<open>UnboundLocalError\<close>.
\<close>

definition create_unless_too_old ::
  "env \<Rightarrow> scalar \<Rightarrow> (string \<times> pyval) list \<Rightarrow> tl_entry list \<Rightarrow> event list \<times> exn option" where
  "create_unless_too_old e ticket_id new_syncro_ticket timeline =
     (case map_of new_syncro_ticket ''created_at'' of
        None \<Rightarrow> ([], Some KeyError)
      | Some (PScalar (SStr s)) \<Rightarrow>
          (case strptime e s of
             None \<Rightarrow> ([], Some ValueError)
           | Some ticket_created_time \<Rightarrow>
               if dt_lt ticket_created_time
                    (replace_tzinfo cutoff_date (dt_tzinfo ticket_created_time))
               then ([Info_too_old ticket_id], Some UnboundLocalError)
               else
                 (case syncro_create_ticket e new_syncro_ticket of
                    Inl x \<Rightarrow> ([Call_create_ticket new_syncro_ticket], Some x)
                  | Inr created_ticket_response \<Rightarrow>
                      (let (evs, raised) = after_create e created_ticket_response timeline in
                       (Call_create_ticket new_syncro_ticket # evs, raised))))
      | Some _ \<Rightarrow> ([], Some TypeError))"

definition prepare_args ::
  "string \<Rightarrow> scalar \<Rightarrow> ticket_info \<Rightarrow> string \<Rightarrow> pyval \<Rightarrow> tl_entry list \<Rightarrow> ticket_args" where
  "prepare_args client ticket_id info subject converted_created_time timeline =
     \<lparr> a_client = client,
       a_contact = get_or (PStr ''No contact available.'') (t_contact info),
       a_ticket_id = ticket_id,
       a_subject = subject,
       a_created_time = converted_created_time,
       a_status = get_or (PStr ''Unknown'') (t_status info),
       a_priority = get_or (PStr ''Unknown'') (t_priority info),
       a_assigned_tech = extract_assigned_tech info,
       a_description = get_or (PStr ''No description available.'') (t_description info),
       a_timeline = timeline \<rparr>"

text \<open>The body of the \<open>try\<close>: its trace, and the exception that left it, if any.\<close>

definition process_body ::
  "env \<Rightarrow> string \<Rightarrow> scalar \<Rightarrow> ticket_info \<Rightarrow> scalar list \<Rightarrow> event list \<times> exn option" where
  "process_body e client ticket_id info matched_ticket_ids =
     (let displayId = get_or SNone (t_displayId info) in
      case subject_with_id info of
        Inl x \<Rightarrow> ([], Some x)
      | Inr subject \<Rightarrow>
          (let created_time = get_or SNone (t_created_time info) in
           if subject = [] \<or> \<not> truthy created_time then ([Warning_missing_field ticket_id], None)
           else
             (case get_syncro_created_date e created_time of
                Inl x \<Rightarrow> ([], Some x)
              | Inr converted_created_time \<Rightarrow>
                  (case ticket_timeline info of
                     Inl x \<Rightarrow> ([], Some x)
                   | Inr timeline \<Rightarrow>
                       if displayId \<in> set matched_ticket_ids
                       then ([Warning_already_exists displayId], None)
                       else
                         (case syncro_prepare_ticket_json_superops e
                                 (prepare_args client ticket_id info subject
                                    converted_created_time timeline) of
                            Inl x \<Rightarrow> ([], Some x)
                          | Inr new_syncro_ticket \<Rightarrow>
                              create_unless_too_old e ticket_id new_syncro_ticket timeline)))))"

text \<open>The \<open>except Exception\<close> of the function logs the exception and returns.\<close>

definition process_individual_ticket ::
  "env \<Rightarrow> string \<Rightarrow> scalar \<Rightarrow> ticket_info \<Rightarrow> scalar list \<Rightarrow> event list" where
  "process_individual_ticket e client ticket_id info matched_ticket_ids =
     (case process_body e client ticket_id info matched_ticket_ids of
        (evs, None) \<Rightarrow> evs
      | (evs, Some x) \<Rightarrow> evs @ [Error_ticket ticket_id x])"

subsection \<open>\<open>process_customer_tickets\<close>\<close>

definition process_customer_tickets ::
  "env \<Rightarrow> string \<Rightarrow> (scalar \<times> ticket_info) list \<Rightarrow> event list" where
  "process_customer_tickets e client tickets =
     (case get_customer_id_by_name e client of
        Inl x \<Rightarrow> [Error_customer x]
      | Inr syncro_customer_id \<Rightarrow>
          if \<not> truthy syncro_customer_id then [Warning_customer_not_found]
          else
            (case syncro_tickets_for e client of
               Inl x \<Rightarrow> [Error_customer x]
             | Inr syncro_tickets \<Rightarrow>
                 (let matched_ticket_ids = compare_tickets_by_subject tickets syncro_tickets in
                  compare_tickets_by_subject_log tickets syncro_tickets @
                  Info_matched_ids matched_ticket_ids #
                  concat (map (\<lambda>(ticket_id, info).
                            process_individual_ticket e client ticket_id info matched_ticket_ids)
                          tickets))))"

text \<open>The trace's comment calls, and the comment built for an entry.\<close>

fun is_comment_call :: "event \<Rightarrow> bool" where
  "is_comment_call (Call_create_comment c t) = True"
| "is_comment_call _ = False"

fun is_create_call :: "event \<Rightarrow> bool" where
  "is_create_call (Call_create_ticket p) = True"
| "is_create_call _ = False"

definition formatted_comment_of :: "env \<Rightarrow> item \<Rightarrow> pyval" where
  "formatted_comment_of e entry = (case build_syncro_comment e entry of Inr c \<Rightarrow> c | Inl x \<Rightarrow> PNone)"

definition comment_builds :: "env \<Rightarrow> item \<Rightarrow> bool" where
  "comment_builds e entry = (case build_syncro_comment e entry of Inr c \<Rightarrow> True | Inl x \<Rightarrow> False)"

definition is_description :: "item \<Rightarrow> bool" where
  "is_description entry = (i_type entry = PStr ''DESCRIPTION'')"

text \<open>A subject that is a string, or absent (then the default \<open>""\<close> is used).\<close>

definition subject_is_text :: "ticket_info \<Rightarrow> bool" where
  "subject_is_text info = (case get_or (SStr []) (t_subject info) of SStr s \<Rightarrow> True | _ \<Rightarrow> False)"

section \<open>Aggregation of the source tickets\<close>

text \<open>
  The source API behind \<open>make_api_call\<close>, one function per query. An answer is
  \<open>None\<close> when the request fails or the payload lacks the queried list. A page of
  tickets may lack the key \<open>tickets\<close>; \<open>hasMore\<close> is the flag of its \<open>listInfo\<close>.
  \<open>strip_html\<close> is the HTML parser's \<open>get_text\<close>.
\<close>

record raw_ticket =
  r_ticketId :: "scalar option"
  r_displayId :: "scalar option"
  r_subject :: "scalar option"
  r_status :: "pyval option"
  r_priority :: "pyval option"
  r_createdTime :: "scalar option"

record ticket_page =
  p_tickets :: "raw_ticket list option"
  p_hasMore :: bool

record client =
  cl_accountId :: string
  cl_name :: string

record source =
  client_list :: "nat \<Rightarrow> nat \<Rightarrow> client list option"
  ticket_list :: "string \<Rightarrow> nat \<Rightarrow> nat \<Rightarrow> ticket_page option"
  conversation_list :: "scalar \<Rightarrow> conversation list option"
  note_list :: "scalar \<Rightarrow> note_entry list option"
  strip_html :: "pyval \<Rightarrow> exn + pyval"

text \<open>A ticket of a page with the conversations and notes fetched for it.\<close>

record fetched_ticket =
  f_ticket :: raw_ticket
  f_conversations :: "conversation list"
  f_notes :: "note_entry list"

text \<open>
  \<open>get_ticket_conversations\<close> and \<open>get_ticket_notes\<close>: a missing \<open>user\<close> becomes
  the empty dictionary, the content is stripped of its markup.
\<close>

fun strip_conversations :: "source \<Rightarrow> conversation list \<Rightarrow> exn + conversation list" where
  "strip_conversations src [] = Inr []"
| "strip_conversations src (conv # rest) =
     (case strip_html src (get_or (PStr []) (c_content conv)) of
        Inl x \<Rightarrow> Inl x
      | Inr text \<Rightarrow>
          (case strip_conversations src rest of
             Inl x \<Rightarrow> Inl x
           | Inr done \<Rightarrow>
               Inr (conv \<lparr> c_user := Some (get_or (PDict []) (c_user conv)),
                           c_content := Some text \<rparr> # done)))"

definition get_ticket_conversations :: "source \<Rightarrow> scalar \<Rightarrow> exn + conversation list" where
  "get_ticket_conversations src ticket_id =
     (case conversation_list src ticket_id of
        None \<Rightarrow> Inr []
      | Some conversations \<Rightarrow> strip_conversations src conversations)"

fun strip_notes :: "source \<Rightarrow> note_entry list \<Rightarrow> exn + note_entry list" where
  "strip_notes src [] = Inr []"
| "strip_notes src (note # rest) =
     (case strip_html src (get_or (PStr []) (n_content note)) of
        Inl x \<Rightarrow> Inl x
      | Inr text \<Rightarrow>
          (case strip_notes src rest of
             Inl x \<Rightarrow> Inl x
           | Inr done \<Rightarrow> Inr (note \<lparr> n_content := Some text \<rparr> # done)))"

definition get_ticket_notes :: "source \<Rightarrow> scalar \<Rightarrow> exn + note_entry list" where
  "get_ticket_notes src ticket_id =
     (case note_list src ticket_id of
        None \<Rightarrow> Inr []
      | Some nts \<Rightarrow> strip_notes src nts)"

text \<open>
  \<open>get_tickets_for_client\<close>: the \<open>for\<close> loop over one page, and the \<open>while True\<close>
  loop over the pages, which ends when a page reports no more pages, and returns the
  empty list when a page cannot be read. The loop runs as long as the source reports
  more pages, so it is a partial function: \<open>None\<close> is the run that does not end.
\<close>

fun fetch_page :: "source \<Rightarrow> raw_ticket list \<Rightarrow> fetched_ticket list \<Rightarrow> exn + fetched_ticket list" where
  "fetch_page src [] tickets = Inr tickets"
| "fetch_page src (ticket # rest) tickets =
     (let ticket_id = get_or SNone (r_ticketId ticket) in
      if \<not> truthy ticket_id then fetch_page src rest tickets
      else
        (case get_ticket_conversations src ticket_id of
           Inl x \<Rightarrow> Inl x
         | Inr conversations \<Rightarrow>
             (case get_ticket_notes src ticket_id of
                Inl x \<Rightarrow> Inl x
              | Inr nts \<Rightarrow>
                  fetch_page src rest
                    (tickets @ [\<lparr> f_ticket = ticket, f_conversations = conversations,
                                   f_notes = nts \<rparr>]))))"

partial_function (option) tickets_loop ::
  "source \<Rightarrow> string \<Rightarrow> nat \<Rightarrow> fetched_ticket list \<Rightarrow> (exn + fetched_ticket list) option" where
  "tickets_loop src account_id page tickets =
     (case ticket_list src account_id page 10 of
        None \<Rightarrow> Some (Inr [])
      | Some ticket_data \<Rightarrow>
          (case p_tickets ticket_data of
             None \<Rightarrow> Some (Inr [])
           | Some on_page \<Rightarrow>
               (case fetch_page src on_page tickets of
                  Inl x \<Rightarrow> Some (Inl x)
                | Inr tickets' \<Rightarrow>
                    if \<not> p_hasMore ticket_data then Some (Inr tickets')
                    else tickets_loop src account_id (page + 1) tickets')))"

declare tickets_loop.simps [code]

definition get_tickets_for_client :: "source \<Rightarrow> string \<Rightarrow> (exn + fetched_ticket list) option" where
  "get_tickets_for_client src account_id = tickets_loop src account_id 1 []"

text \<open>\<open>extract_ticket_details\<close>, \<open>get_description_content\<close> and the per-client dictionary.\<close>

definition extract_ticket_details :: "fetched_ticket \<Rightarrow> ticket_info" where
  "extract_ticket_details ticket =
     \<lparr> t_displayId = Some (get_or SNone (r_displayId (f_ticket ticket))),
       t_subject = Some (get_or SNone (r_subject (f_ticket ticket))),
       t_status = Some (get_or PNone (r_status (f_ticket ticket))),
       t_priority = Some (get_or PNone (r_priority (f_ticket ticket))),
       t_created_time = Some (get_or SNone (r_createdTime (f_ticket ticket))),
       t_notes = Some (f_notes ticket),
       t_conversations = Some (f_conversations ticket),
       t_assigned_tech = None, t_contact = None, t_description = None \<rparr>"

fun get_description_content :: "conversation list \<Rightarrow> pyval" where
  "get_description_content [] = PNone"
| "get_description_content (conv # rest) =
     (if get_or PNone (c_type conv) = PStr ''DESCRIPTION'' then get_or PNone (c_content conv)
      else get_description_content rest)"

text \<open>\<open>d[k] = v\<close> on a dictionary kept in insertion order.\<close>

definition dict_set :: "('k \<times> 'v) list \<Rightarrow> 'k \<Rightarrow> 'v \<Rightarrow> ('k \<times> 'v) list" where
  "dict_set d k v =
     (if k \<in> fst ` set d then map (\<lambda>(k', v'). if k' = k then (k', v) else (k', v')) d
      else d @ [(k, v)])"

definition ticket_details :: "fetched_ticket \<Rightarrow> ticket_info" where
  "ticket_details ticket =
     (let ticket_info = extract_ticket_details ticket;
          (assigned_tech, contact) = get_assigned_tech_and_user (f_conversations ticket) in
      ticket_info \<lparr> t_assigned_tech := Some assigned_tech, t_contact := Some contact,
                    t_description := Some (get_description_content (f_conversations ticket)) \<rparr>)"

fun structure_tickets ::
  "fetched_ticket list \<Rightarrow> (scalar \<times> ticket_info) list \<Rightarrow> (scalar \<times> ticket_info) list" where
  "structure_tickets [] client_ticket_info = client_ticket_info"
| "structure_tickets (ticket # rest) client_ticket_info =
     (let ticket_id = get_or SNone (r_ticketId (f_ticket ticket)) in
      if truthy ticket_id
      then structure_tickets rest (dict_set client_ticket_info ticket_id (ticket_details ticket))
      else structure_tickets rest client_ticket_info)"

text \<open>
  \<open>get_all_clients_with_tickets\<close>: one request for the clients (page 1, page size 100),
  then the loop over the clients of that answer.
\<close>

fun clients_loop ::
  "source \<Rightarrow> client list \<Rightarrow> (string \<times> (scalar \<times> ticket_info) list) list \<Rightarrow>
   (exn + (string \<times> (scalar \<times> ticket_info) list) list) option" where
  "clients_loop src [] client_tickets = Some (Inr client_tickets)"
| "clients_loop src (c # rest) client_tickets =
     (case get_tickets_for_client src (cl_accountId c) of
        None \<Rightarrow> None
      | Some (Inl x) \<Rightarrow> Some (Inl x)
      | Some (Inr tickets) \<Rightarrow>
          clients_loop src rest
            (dict_set client_tickets (cl_name c) (structure_tickets tickets [])))"

definition get_all_clients_with_tickets ::
  "source \<Rightarrow> (exn + (string \<times> (scalar \<times> ticket_info) list) list) option" where
  "get_all_clients_with_tickets src =
     (case client_list src 1 100 of
        None \<Rightarrow> Some (Inr [])
      | Some clients \<Rightarrow> clients_loop src clients [])"

section \<open>Sample data\<close>

text \<open>
  Tickets, destination tickets and stand-ins for the collaborators, for the concrete
  instances below. The stand-in parser knows three strings and their parsed values.
\<close>

definition blank_ticket :: ticket_info where
  "blank_ticket =
     \<lparr> t_displayId = None, t_subject = None, t_status = None, t_priority = None,
       t_created_time = None, t_notes = None, t_conversations = None,
       t_assigned_tech = None, t_contact = None, t_description = None \<rparr>"

definition ticket_45 :: ticket_info where
  "ticket_45 = blank_ticket \<lparr> t_displayId := Some (SInt 45), t_subject := Some (SStr ''Mouse dead''),
                             t_created_time := Some (SStr ''2024-05-01T00:00:00+0000'') \<rparr>"

definition syncro_4521 :: syncro_ticket where
  "syncro_4521 = \<lparr> s_subject = Some (SStr ''Printer issue #4521''),
                   s_created_at = Some (SStr ''2024-06-01T00:00:00+0000''),
                   s_ticket_id = Some (SInt 9) \<rparr>"

definition ticket_77 :: ticket_info where
  "ticket_77 = blank_ticket \<lparr> t_displayId := Some (SInt 77),
                             t_subject := Some (SStr ''Printer broken''),
                             t_created_time := Some (SStr ''2024-05-01T00:00:00+0000''),
                             t_notes := Some sample_notes,
                             t_conversations := Some sample_conversations \<rparr>"

definition syncro_printer :: syncro_ticket where
  "syncro_printer = \<lparr> s_subject = Some (SStr ''Printer broken''),
                      s_created_at = Some (SStr ''2024-05-01T00:00:00+0000''),
                      s_ticket_id = Some (SInt 12) \<rparr>"

definition syncro_printer_z :: syncro_ticket where
  "syncro_printer_z = \<lparr> s_subject = Some (SStr ''Printer broken''),
                        s_created_at = Some (SStr ''2024-05-01T00:00:00Z''),
                        s_ticket_id = Some (SInt 13) \<rparr>"

definition syncro_printer_77 :: syncro_ticket where
  "syncro_printer_77 = \<lparr> s_subject = Some (SStr ''Printer broken 77''),
                         s_created_at = Some (SStr ''2024-05-01T00:00:00+0000''),
                         s_ticket_id = Some (SInt 14) \<rparr>"

definition sample_strptime :: "string \<Rightarrow> datetime option" where
  "sample_strptime s =
     (if s = ''2024-03-31T23:59:59+0000'' then
        Some \<lparr> dt_year = 2024, dt_month = 3, dt_day = 31, dt_hour = 23, dt_minute = 59,
               dt_second = 59, dt_tzinfo = Some 0 \<rparr>
      else if s = ''2024-04-01T00:00:00+0000'' then
        Some \<lparr> dt_year = 2024, dt_month = 4, dt_day = 1, dt_hour = 0, dt_minute = 0,
               dt_second = 0, dt_tzinfo = Some 0 \<rparr>
      else if s = ''2024-05-01T00:00:00+0000'' then
        Some \<lparr> dt_year = 2024, dt_month = 5, dt_day = 1, dt_hour = 0, dt_minute = 0,
               dt_second = 0, dt_tzinfo = Some 0 \<rparr>
      else None)"

definition sample_env :: "syncro_ticket list \<Rightarrow> env" where
  "sample_env existing =
     \<lparr> get_customer_id_by_name = (\<lambda>c. Inr (SInt 1)),
       syncro_tickets_for = (\<lambda>c. Inr existing),
       get_syncro_created_date = (\<lambda>t. case t of SStr s \<Rightarrow> Inr (PStr s) | _ \<Rightarrow> Inl TypeError),
       syncro_prepare_ticket_json_superops =
         (\<lambda>a. Inr [(''subject'', PStr (a_subject a)), (''created_at'', a_created_time a)]),
       strptime = sample_strptime,
       syncro_create_ticket =
         (\<lambda>p. Inr (Some [(''ticket'', PDict [(''id'', PScalar (SInt 501)),
                                               (''number'', PScalar (SInt 1001))])])),
       build_syncro_comment = (\<lambda>entry. Inr (i_content entry)),
       syncro_create_comment = (\<lambda>c t. Inr ()) \<rparr>"

definition ticket_march :: ticket_info where
  "ticket_march = ticket_77 \<lparr> t_created_time := Some (SStr ''2024-03-31T23:59:59+0000'') \<rparr>"

definition ticket_april :: ticket_info where
  "ticket_april = ticket_77 \<lparr> t_created_time := Some (SStr ''2024-04-01T00:00:00+0000'') \<rparr>"

definition ticket_no_created_time :: ticket_info where
  "ticket_no_created_time = ticket_77 \<lparr> t_created_time := Some SNone \<rparr>"

definition ticket_null_subject :: ticket_info where
  "ticket_null_subject = ticket_77 \<lparr> t_subject := Some SNone \<rparr>"

definition ticket_empty_subject :: ticket_info where
  "ticket_empty_subject = ticket_77 \<lparr> t_subject := Some (SStr []), t_notes := None,
                                       t_conversations := None \<rparr>"

definition note_item_1 :: item where
  "note_item_1 = \<lparr> i_type = PStr ''NOTE'', i_content = PStr ''called back'',
                   i_user = PStr ''Ann'', i_time = SStr ''2024-05-02'' \<rparr>"

definition note_item_2 :: item where
  "note_item_2 = \<lparr> i_type = PStr ''NOTE'', i_content = PStr ''replaced toner'',
                   i_user = PStr ''Ann'', i_time = SStr ''2024-05-04'' \<rparr>"



text \<open>A source with 101 clients, none with a ticket, served in pages of the requested size.\<close>

definition nth_client :: "nat \<Rightarrow> client" where
  "nth_client i = \<lparr> cl_accountId = ''acc-'' @ str_of_nat i, cl_name = ''Client '' @ str_of_nat i \<rparr>"

definition many_clients :: source where
  "many_clients =
     \<lparr> client_list = (\<lambda>page pageSize.
          Some (map nth_client (take pageSize (drop ((page - 1) * pageSize) [0..<101])))),
       ticket_list = (\<lambda>account_id page pageSize. Some \<lparr> p_tickets = Some [], p_hasMore = False \<rparr>),
       conversation_list = (\<lambda>ticket_id. Some []),
       note_list = (\<lambda>ticket_id. Some []),
       strip_html = Inr \<rparr>"

section \<open>Properties of the technician lookup\<close>

lemma time_le_trans: "time_le a b \<Longrightarrow> time_le b c \<Longrightarrow> time_le a c"
  by (cases a; cases b; cases c) auto

lemma py_lt_True: "py_lt a b = Inr True \<Longrightarrow> time_le a b"
  by (cases a; cases b) auto

lemma py_lt_False: "py_lt a b = Inr False \<Longrightarrow> time_le b a"
  by (cases a; cases b) auto

lemma max_loop_int:
  "\<forall>c \<in> set xs. int_time (c_time c) \<Longrightarrow> c_time mi = Some (SInt m) \<Longrightarrow>
   \<exists>r. max_loop mi (SInt m) xs = Inr r \<and> r \<in> set (mi # xs) \<and>
       (\<forall>c \<in> set (mi # xs). time_le (time_of c) (time_of r))"
proof (induction xs arbitrary: mi m)
  case Nil
  then show ?case by (simp add: time_of_def get_or_def)
next
  case (Cons x xs)
  from Cons.prems(1) obtain v where v: "c_time x = Some (SInt v)"
    by (auto simp: int_time_def split: option.splits scalar.splits)
  show ?case
  proof (cases "v > m")
    case True
    from Cons.IH[of x v] Cons.prems(1) v
    obtain r where r: "max_loop x (SInt v) xs = Inr r" "r \<in> set (x # xs)"
      "\<forall>c \<in> set (x # xs). time_le (time_of c) (time_of r)" by auto
    have "time_le (time_of mi) (time_of x)"
      using True v Cons.prems(2) by (simp add: time_of_def get_or_def)
    moreover have "time_le (time_of x) (time_of r)" using r(3) by simp
    ultimately have "time_le (time_of mi) (time_of r)" by (rule time_le_trans)
    with r True v show ?thesis by (auto simp: py_gt_def)
  next
    case False
    from Cons.IH[of mi m] Cons.prems
    obtain r where r: "max_loop mi (SInt m) xs = Inr r" "r \<in> set (mi # xs)"
      "\<forall>c \<in> set (mi # xs). time_le (time_of c) (time_of r)" by auto
    have "time_le (time_of x) (time_of mi)"
      using False v Cons.prems(2) by (simp add: time_of_def get_or_def)
    moreover have "time_le (time_of mi) (time_of r)" using r(3) by simp
    ultimately have "time_le (time_of x) (time_of r)" by (rule time_le_trans)
    with r False v show ?thesis by (auto simp: py_gt_def)
  qed
qed

lemma max_loop_str:
  "\<forall>c \<in> set xs. str_time (c_time c) \<Longrightarrow> c_time mi = Some (SStr m) \<Longrightarrow>
   \<exists>r. max_loop mi (SStr m) xs = Inr r \<and> r \<in> set (mi # xs) \<and>
       (\<forall>c \<in> set (mi # xs). time_le (time_of c) (time_of r))"
proof (induction xs arbitrary: mi m)
  case Nil
  then show ?case by (simp add: time_of_def get_or_def)
next
  case (Cons x xs)
  from Cons.prems(1) obtain v where v: "c_time x = Some (SStr v)"
    by (auto simp: str_time_def split: option.splits scalar.splits)
  show ?case
  proof (cases "v > m")
    case True
    from Cons.IH[of x v] Cons.prems(1) v
    obtain r where r: "max_loop x (SStr v) xs = Inr r" "r \<in> set (x # xs)"
      "\<forall>c \<in> set (x # xs). time_le (time_of c) (time_of r)" by auto
    have "time_le (time_of mi) (time_of x)"
      using True v Cons.prems(2) by (simp add: time_of_def get_or_def)
    moreover have "time_le (time_of x) (time_of r)" using r(3) by simp
    ultimately have "time_le (time_of mi) (time_of r)" by (rule time_le_trans)
    with r True v show ?thesis by (auto simp: py_gt_def)
  next
    case False
    from Cons.IH[of mi m] Cons.prems
    obtain r where r: "max_loop mi (SStr m) xs = Inr r" "r \<in> set (mi # xs)"
      "\<forall>c \<in> set (mi # xs). time_le (time_of c) (time_of r)" by auto
    have "time_le (time_of x) (time_of mi)"
      using False v Cons.prems(2) by (simp add: time_of_def get_or_def)
    moreover have "time_le (time_of mi) (time_of r)" using r(3) by simp
    ultimately have "time_le (time_of x) (time_of r)" by (rule time_le_trans)
    with r False v show ?thesis by (auto simp: py_gt_def)
  qed
qed

lemma max_by_time_comparable:
  assumes "xs \<noteq> []" "comparable_times xs"
  shows "\<exists>r. max_by_time xs = Inr r \<and> r \<in> set xs \<and>
       (\<forall>c \<in> set xs. time_le (time_of c) (time_of r))"
proof -
  from assms(1) obtain x ys where xs: "xs = x # ys" by (cases xs) auto
  from assms(2) consider (i) "\<forall>c \<in> set xs. int_time (c_time c)" | (s) "\<forall>c \<in> set xs. str_time (c_time c)"
    by (auto simp: comparable_times_def list_all_iff)
  then show ?thesis
  proof cases
    case i
    then obtain v where v: "c_time x = Some (SInt v)"
      by (auto simp: xs int_time_def split: option.splits scalar.splits)
    from i have "\<forall>c \<in> set ys. int_time (c_time c)" by (simp add: xs)
    from max_loop_int[OF this v] show ?thesis by (simp add: xs v)
  next
    case s
    then obtain v where v: "c_time x = Some (SStr v)"
      by (auto simp: xs str_time_def split: option.splits scalar.splits)
    from s have "\<forall>c \<in> set ys. str_time (c_time c)" by (simp add: xs)
    from max_loop_str[OF this v] show ?thesis by (simp add: xs v)
  qed
qed

text \<open>
  Claim C1. Among the \<open>TECH_REPLY\<close> entries the function returns the \<open>user\<close> and the
  \<open>toUsers\<close> of one whose time is the maximum (no entry has a later time), not the
  earliest one; with no \<open>TECH_REPLY\<close> entry it returns \<open>(None, [])\<close>. A maximum exists
  when the times of the tech replies are present and compare: all integers or all strings.
  (Otherwise the lookup or the comparison raises, and the handler returns \<open>(None, [])\<close>.)
\<close>
theorem get_assigned_tech_and_user_max:
  "(tech_replies_of conversations = [] \<longrightarrow>
      get_assigned_tech_and_user conversations = (PNone, PList [])) \<and>
   (tech_replies_of conversations \<noteq> [] \<and> comparable_times (tech_replies_of conversations) \<longrightarrow>
      (\<exists>r \<in> set (tech_replies_of conversations).
         get_assigned_tech_and_user conversations =
           (get_or PNone (c_user r), get_or (PList []) (c_toUsers r)) \<and>
         (\<forall>c \<in> set (tech_replies_of conversations). time_le (time_of c) (time_of r))))"
proof (intro conjI impI)
  assume "tech_replies_of conversations = []"
  then show "get_assigned_tech_and_user conversations = (PNone, PList [])"
    by (simp add: get_assigned_tech_and_user_def)
next
  assume a: "tech_replies_of conversations \<noteq> [] \<and> comparable_times (tech_replies_of conversations)"
  then obtain r where r: "max_by_time (tech_replies_of conversations) = Inr r"
    "r \<in> set (tech_replies_of conversations)"
    "\<forall>c \<in> set (tech_replies_of conversations). time_le (time_of c) (time_of r)"
    using max_by_time_comparable by blast
  with a show "\<exists>r \<in> set (tech_replies_of conversations).
         get_assigned_tech_and_user conversations =
           (get_or PNone (c_user r), get_or (PList []) (c_toUsers r)) \<and>
         (\<forall>c \<in> set (tech_replies_of conversations). time_le (time_of c) (time_of r))"
    by (auto simp: get_assigned_tech_and_user_def Let_def)
qed

text \<open>
  On the input of the repository's test the later reply (time 2, \<open>Tech2\<close>) is returned;
  the test expects the earlier one (\<open>Tech1\<close>).
\<close>

lemma test_conversations_result:
  "get_assigned_tech_and_user test_conversations =
     (PDict [(''name'', PStr ''Tech2'')], PList [PDict [(''user'', PStr ''User2'')]])"
  by (simp add: test_conversations_def get_assigned_tech_and_user_def tech_replies_of_def
      is_tech_reply_def get_or_def py_gt_def)

theorem get_assigned_tech_and_user_max_witness:
  "tech_replies_of [hd test_conversations] = [] \<and>
   get_assigned_tech_and_user [hd test_conversations] = (PNone, PList []) \<and>
   tech_replies_of test_conversations \<noteq> [] \<and>
   comparable_times (tech_replies_of test_conversations) \<and>
   (\<exists>r \<in> set (tech_replies_of test_conversations).
      get_assigned_tech_and_user test_conversations =
        (get_or PNone (c_user r), get_or (PList []) (c_toUsers r)) \<and>
      (\<forall>c \<in> set (tech_replies_of test_conversations). time_le (time_of c) (time_of r)))"
proof -
  have h0: "tech_replies_of [hd test_conversations] = []"
    by (simp add: test_conversations_def tech_replies_of_def is_tech_reply_def get_or_def)
  have h1: "tech_replies_of test_conversations \<noteq> [] \<and>
            comparable_times (tech_replies_of test_conversations)"
    by (simp add: test_conversations_def tech_replies_of_def is_tech_reply_def get_or_def
        comparable_times_def int_time_def)
  note a = get_assigned_tech_and_user_max [of "[hd test_conversations]", THEN conjunct1, rule_format, OF h0]
  note b = get_assigned_tech_and_user_max [of test_conversations, THEN conjunct2, rule_format, OF h1]
  from h0 a h1 b show ?thesis by blast
qed


section \<open>Properties of the timeline merge\<close>

lemma insort_time_mset: "insort_time x ys = Inr zs \<Longrightarrow> mset zs = add_mset x (mset ys)"
  by (induction ys arbitrary: zs) (auto split: sum.splits bool.splits if_splits)

lemma insort_time_sorted:
  "insort_time x ys = Inr zs \<Longrightarrow> sorted_wrt item_le ys \<Longrightarrow> sorted_wrt item_le zs"
proof (induction ys arbitrary: zs)
  case Nil
  then show ?case by auto
next
  case (Cons y ys)
  show ?case
  proof (cases "py_lt (i_time y) (i_time x)")
    case (Inl e)
    with Cons.prems show ?thesis by simp
  next
    case (Inr b)
    show ?thesis
    proof (cases b)
      case True
      with Inr Cons.prems(1) obtain zs' where zs': "insort_time x ys = Inr zs'" "zs = y # zs'"
        by (auto split: sum.splits)
      from Cons.prems(2) have "sorted_wrt item_le ys" by simp
      with Cons.IH zs'(1) have s: "sorted_wrt item_le zs'" by blast
      have "set zs' = insert x (set ys)"
        using insort_time_mset[OF zs'(1)] by (metis set_mset_add_mset_insert set_mset_mset)
      moreover have "item_le y x" using Inr True py_lt_True by (simp add: item_le_def)
      moreover have "\<forall>z \<in> set ys. item_le y z" using Cons.prems(2) by simp
      ultimately show ?thesis using s zs'(2) by simp
    next
      case False
      with Inr Cons.prems(1) have zs: "zs = x # y # ys" by simp
      have xy: "item_le x y" using Inr False py_lt_False by (simp add: item_le_def)
      have "\<forall>z \<in> set ys. item_le x z"
      proof
        fix z assume "z \<in> set ys"
        with Cons.prems(2) have "item_le y z" by simp
        with xy show "item_le x z" unfolding item_le_def by (rule time_le_trans)
      qed
      with xy Cons.prems(2) zs show ?thesis by simp
    qed
  qed
qed

lemma sort_by_time_mset: "sort_by_time xs = Inr ys \<Longrightarrow> mset ys = mset xs"
  by (induction xs arbitrary: ys) (auto split: sum.splits dest: insort_time_mset)

lemma sort_by_time_sorted: "sort_by_time xs = Inr ys \<Longrightarrow> sorted_wrt item_le ys"
  by (induction xs arbitrary: ys) (auto split: sum.splits dest: insort_time_sorted)

lemma insort_time_int:
  "is_int (i_time x) \<Longrightarrow> \<forall>y \<in> set ys. is_int (i_time y) \<Longrightarrow> \<exists>zs. insort_time x ys = Inr zs"
  by (induction ys) (auto simp: is_int_def split: scalar.splits sum.splits bool.splits)

lemma insort_time_str:
  "is_str (i_time x) \<Longrightarrow> \<forall>y \<in> set ys. is_str (i_time y) \<Longrightarrow> \<exists>zs. insort_time x ys = Inr zs"
  by (induction ys) (auto simp: is_str_def split: scalar.splits sum.splits bool.splits)

lemma sort_by_time_int:
  "\<forall>x \<in> set xs. is_int (i_time x) \<Longrightarrow> \<exists>ys. sort_by_time xs = Inr ys"
proof (induction xs)
  case Nil
  then show ?case by simp
next
  case (Cons x xs)
  then obtain ys where ys: "sort_by_time xs = Inr ys" by auto
  then have "set ys = set xs" by (metis sort_by_time_mset set_mset_mset)
  with Cons.prems insort_time_int[of x ys] ys show ?case by auto
qed

lemma sort_by_time_str:
  "\<forall>x \<in> set xs. is_str (i_time x) \<Longrightarrow> \<exists>ys. sort_by_time xs = Inr ys"
proof (induction xs)
  case Nil
  then show ?case by simp
next
  case (Cons x xs)
  then obtain ys where ys: "sort_by_time xs = Inr ys" by auto
  then have "set ys = set xs" by (metis sort_by_time_mset set_mset_mset)
  with Cons.prems insort_time_str[of x ys] ys show ?case by auto
qed

text \<open>
  The sort raises exactly when it has two or more entries whose keys are not all
  integers or all strings: the outcome of any comparison sort on such keys, since every
  entry is compared with another one.
\<close>

lemma insort_time_same_kind:
  "insort_time x (y # ys) = Inr zs \<Longrightarrow>
     (is_int (i_time x) \<and> is_int (i_time y)) \<or> (is_str (i_time x) \<and> is_str (i_time y))"
  by (cases "i_time x"; cases "i_time y") (auto simp: is_int_def is_str_def)

lemma sort_by_time_returns_iff:
  "(\<exists>ys. sort_by_time xs = Inr ys) \<longleftrightarrow>
     (length xs \<le> 1 \<or> (\<forall>x \<in> set xs. is_int (i_time x)) \<or> (\<forall>x \<in> set xs. is_str (i_time x)))"
proof
  assume "\<exists>ys. sort_by_time xs = Inr ys"
  then show "length xs \<le> 1 \<or> (\<forall>x \<in> set xs. is_int (i_time x)) \<or> (\<forall>x \<in> set xs. is_str (i_time x))"
  proof (induction xs)
    case Nil
    then show ?case by simp
  next
    case (Cons x xs)
    then obtain ys zs where ys: "sort_by_time xs = Inr ys" and zs: "insort_time x ys = Inr zs"
      by (auto split: sum.splits)
    have set: "set ys = set xs" using ys by (metis sort_by_time_mset set_mset_mset)
    have len: "length ys = length xs" using ys by (metis sort_by_time_mset size_mset)
    show ?case
    proof (cases xs)
      case Nil
      then show ?thesis by simp
    next
      case (Cons a as)
      with len obtain y ys' where y: "ys = y # ys'" by (cases ys) auto
      from insort_time_same_kind[OF zs[unfolded y]]
      have k: "(is_int (i_time x) \<and> is_int (i_time y)) \<or> (is_str (i_time x) \<and> is_str (i_time y))" .
      have yin: "y \<in> set xs" using set y by auto
      from Cons.IH ys have ih: "length xs \<le> 1 \<or> (\<forall>x \<in> set xs. is_int (i_time x)) \<or> (\<forall>x \<in> set xs. is_str (i_time x))"
        by blast
      have one: "length xs \<le> 1 \<Longrightarrow> xs = [y]"
        using yin by (cases xs) auto
      have excl: "\<And>t. \<not> (is_int t \<and> is_str t)" by (auto simp: is_int_def is_str_def split: scalar.splits)
      from ih k yin one excl show ?thesis by (metis list.set_intros(1) set_ConsD empty_iff list.set(1))
    qed
  qed
next
  assume a: "length xs \<le> 1 \<or> (\<forall>x \<in> set xs. is_int (i_time x)) \<or> (\<forall>x \<in> set xs. is_str (i_time x))"
  then consider "length xs \<le> 1" | "\<forall>x \<in> set xs. is_int (i_time x)" | "\<forall>x \<in> set xs. is_str (i_time x)" by blast
  then show "\<exists>ys. sort_by_time xs = Inr ys"
  proof cases
    case 1
    then show ?thesis by (cases xs; cases "tl xs") auto
  next
    case 2
    then show ?thesis by (rule sort_by_time_int)
  next
    case 3
    then show ?thesis by (rule sort_by_time_str)
  qed
qed

lemma note_items_list_all2:
  "note_items nts = Inr ns \<Longrightarrow> list_all2 (\<lambda>n i. note_item n = Inr i) nts ns"
  by (induction nts arbitrary: ns) (auto split: sum.splits)

lemma note_item_type: "note_item n = Inr i \<Longrightarrow> i_type i = PStr ''NOTE'' \<and> i_time i = note_time n"
  by (auto simp: note_item_def note_time_def split: pyval.splits)

lemma note_items_ok: "list_all note_ok nts \<Longrightarrow> \<exists>ns. note_items nts = Inr ns"
  by (induction nts)
     (auto simp: note_ok_def note_item_def get_or_def split: option.splits pyval.splits sum.splits)

lemma sorted_wrt_entries: "sorted_wrt entry_le (map Entry items) = sorted_wrt item_le items"
proof -
  have "item_le = (\<lambda>x y. time_le (i_time x) (i_time y))"
    by (intro ext) (simp add: item_le_def)
  then show ?thesis by (simp add: sorted_wrt_map)
qed

lemma uniform_times_items:
  assumes "note_items nts = Inr ns" "uniform_times nts convs"
  shows "(\<forall>x \<in> set (ns @ map conv_item convs). is_int (i_time x)) \<or>
         (\<forall>x \<in> set (ns @ map conv_item convs). is_str (i_time x))"
proof -
  have a: "list_all2 (\<lambda>n i. note_item n = Inr i) nts ns" using assms(1) by (rule note_items_list_all2)
  have b: "map i_time ns = map note_time nts"
    using a by (induction rule: list_all2_induct) (auto dest: note_item_type)
  have c: "map i_time (map conv_item convs) = map conv_time convs"
    by (simp add: conv_item_def conv_time_def)
  have d: "map i_time (ns @ map conv_item convs) = map note_time nts @ map conv_time convs"
    using b c by simp
  have e: "\<And>P. (\<forall>x \<in> set (ns @ map conv_item convs). P (i_time x)) =
         list_all P (map i_time (ns @ map conv_item convs))"
    by (simp only: list_all_iff set_map ball_simps)
  show ?thesis using assms(2) unfolding e d uniform_times_def by simp
qed

lemma combine_returns:
  assumes "list_all note_ok nts" "uniform_times nts convs"
  shows "\<exists>tline. combine_notes_and_conversations nts convs = Inr tline"
proof -
  from assms(1) obtain ns where ns: "note_items nts = Inr ns" using note_items_ok by blast
  from uniform_times_items[OF ns assms(2)] sort_by_time_returns_iff[of "ns @ map conv_item convs"]
  obtain ys where "sort_by_time (ns @ map conv_item convs) = Inr ys" by blast
  with ns show ?thesis by (simp add: combine_notes_and_conversations_def)
qed

lemma combine_Inr:
  assumes "combine_notes_and_conversations nts convs = Inr tline"
  obtains ns items where "note_items nts = Inr ns"
    "sort_by_time (ns @ map conv_item convs) = Inr items"
    "tline = (if items \<noteq> [] then map Entry items else [NoHistory no_history])"
  using assms by (auto simp: combine_notes_and_conversations_def split: sum.splits)

text \<open>
  Claim C2. Whenever \<open>combine_notes_and_conversations\<close> returns a list, the list is not
  empty and its entries are in non-decreasing order of \<open>time\<close>; for two empty inputs it
  returns the one-element list holding the string "No notes or conversations found.".
  It does return when every note's \<open>addedBy\<close> is absent or a dictionary and the time
  keys are all integers or all strings.
\<close>
theorem combine_notes_and_conversations_sorted:
  "(\<forall>tline. combine_notes_and_conversations nts convs = Inr tline \<longrightarrow>
       tline \<noteq> [] \<and> sorted_wrt entry_le tline) \<and>
   combine_notes_and_conversations [] [] = Inr [NoHistory ''No notes or conversations found.''] \<and>
   (list_all note_ok nts \<and> uniform_times nts convs \<longrightarrow>
       (\<exists>tline. combine_notes_and_conversations nts convs = Inr tline))"
proof (intro conjI allI impI)
  fix tline assume a: "combine_notes_and_conversations nts convs = Inr tline"
  then obtain ns items where i: "sort_by_time (ns @ map conv_item convs) = Inr items"
    "tline = (if items \<noteq> [] then map Entry items else [NoHistory no_history])"
    by (rule combine_Inr)
  show "tline \<noteq> []" using i(2) by simp
  have "sorted_wrt item_le items" using i(1) by (rule sort_by_time_sorted)
  then show "sorted_wrt entry_le tline" using i(2) by (simp add: sorted_wrt_entries)
next
  show "combine_notes_and_conversations [] [] = Inr [NoHistory ''No notes or conversations found.'']"
    by (simp add: combine_notes_and_conversations_def no_history_def)
next
  assume "list_all note_ok nts \<and> uniform_times nts convs"
  then show "\<exists>tline. combine_notes_and_conversations nts convs = Inr tline"
    using combine_returns by blast
qed

lemma sample_timeline:
  "combine_notes_and_conversations sample_notes sample_conversations =
     Inr [Entry (conv_item sample_description),
          Entry \<lparr> i_type = PStr ''NOTE'', i_content = PStr ''called back'',
                  i_user = PStr ''Ann'', i_time = SStr ''2024-05-02'' \<rparr>,
          Entry (conv_item sample_reply)]"
  by (simp add: combine_notes_and_conversations_def sample_notes_def sample_conversations_def
      sample_reply_def sample_description_def note_item_def conv_item_def get_or_def
      dict_get_def user_info_of_def)

lemma sample_inputs_ok:
  "list_all note_ok sample_notes \<and> uniform_times sample_notes sample_conversations"
  by (simp add: sample_notes_def sample_conversations_def sample_reply_def
      sample_description_def note_ok_def uniform_times_def note_time_def conv_time_def
      get_or_def is_int_def is_str_def)

theorem combine_notes_and_conversations_sorted_witness:
  "combine_notes_and_conversations sample_notes sample_conversations =
     Inr [Entry (conv_item sample_description),
          Entry \<lparr> i_type = PStr ''NOTE'', i_content = PStr ''called back'',
                  i_user = PStr ''Ann'', i_time = SStr ''2024-05-02'' \<rparr>,
          Entry (conv_item sample_reply)] \<and>
   sorted_wrt entry_le
     [Entry (conv_item sample_description),
      Entry \<lparr> i_type = PStr ''NOTE'', i_content = PStr ''called back'',
              i_user = PStr ''Ann'', i_time = SStr ''2024-05-02'' \<rparr>,
      Entry (conv_item sample_reply)] \<and>
   list_all note_ok sample_notes \<and> uniform_times sample_notes sample_conversations \<and>
   (\<exists>tline. combine_notes_and_conversations sample_notes sample_conversations = Inr tline)"
proof -
  note t = combine_notes_and_conversations_sorted [of sample_notes sample_conversations]
  note a = t [THEN conjunct1, rule_format, OF sample_timeline, THEN conjunct2]
  note b = t [THEN conjunct2, THEN conjunct2, rule_format, OF sample_inputs_ok]
  from sample_timeline a sample_inputs_ok b show ?thesis by blast
qed

text \<open>
  Claim C10. When at least one input is not empty and the function returns, the returned
  list consists of entries only and is a permutation of the entries built from the inputs:
  one per note, of type \<open>NOTE\<close>, and one per conversation, carrying the conversation's
  type tag (\<open>Unknown\<close> when the tag is absent); its length is the sum of the two lengths.
\<close>
theorem combine_notes_and_conversations_permutation:
  assumes "combine_notes_and_conversations nts convs = Inr tline" "nts \<noteq> [] \<or> convs \<noteq> []"
  shows "\<exists>ns items. list_all2 (\<lambda>n i. note_item n = Inr i) nts ns \<and>
           tline = map Entry items \<and>
           mset items = mset ns + mset (map conv_item convs) \<and>
           length tline = length nts + length convs \<and>
           (\<forall>i \<in> set ns. i_type i = PStr ''NOTE'') \<and>
           map i_type (map conv_item convs) = map (\<lambda>c. get_or (PStr ''Unknown'') (c_type c)) convs"
proof -
  from assms(1) obtain ns items where i: "note_items nts = Inr ns"
    "sort_by_time (ns @ map conv_item convs) = Inr items"
    "tline = (if items \<noteq> [] then map Entry items else [NoHistory no_history])"
    by (rule combine_Inr)
  have l2: "list_all2 (\<lambda>n i. note_item n = Inr i) nts ns" using i(1) by (rule note_items_list_all2)
  have len: "length ns = length nts" using l2 by (simp add: list_all2_lengthD)
  have m: "mset items = mset ns + mset (map conv_item convs)"
    using sort_by_time_mset[OF i(2)] by simp
  have li: "length items = length nts + length convs"
    using m len by (metis length_append length_map mset_append size_mset)
  have ne: "items \<noteq> []" using li assms(2) by auto
  have ty: "\<forall>i \<in> set ns. i_type i = PStr ''NOTE''"
    using l2 by (induction rule: list_all2_induct) (auto dest: note_item_type)
  have ct: "map i_type (map conv_item convs) = map (\<lambda>c. get_or (PStr ''Unknown'') (c_type c)) convs"
    by (simp add: conv_item_def)
  from l2 m li ne ty ct i(3) show ?thesis by auto
qed

lemma sample_nonempty: "sample_notes \<noteq> [] \<or> sample_conversations \<noteq> []"
  by (simp add: sample_notes_def)

theorem combine_notes_and_conversations_permutation_witness:
  "combine_notes_and_conversations sample_notes sample_conversations =
     Inr [Entry (conv_item sample_description),
          Entry \<lparr> i_type = PStr ''NOTE'', i_content = PStr ''called back'',
                  i_user = PStr ''Ann'', i_time = SStr ''2024-05-02'' \<rparr>,
          Entry (conv_item sample_reply)] \<and>
   (\<exists>ns items. list_all2 (\<lambda>n i. note_item n = Inr i) sample_notes ns \<and>
      [Entry (conv_item sample_description),
       Entry \<lparr> i_type = PStr ''NOTE'', i_content = PStr ''called back'',
               i_user = PStr ''Ann'', i_time = SStr ''2024-05-02'' \<rparr>,
       Entry (conv_item sample_reply)] = map Entry items \<and>
      mset items = mset ns + mset (map conv_item sample_conversations) \<and>
      length [Entry (conv_item sample_description),
       Entry \<lparr> i_type = PStr ''NOTE'', i_content = PStr ''called back'',
               i_user = PStr ''Ann'', i_time = SStr ''2024-05-02'' \<rparr>,
       Entry (conv_item sample_reply)] = length sample_notes + length sample_conversations \<and>
      (\<forall>i \<in> set ns. i_type i = PStr ''NOTE'') \<and>
      map i_type (map conv_item sample_conversations) =
        map (\<lambda>c. get_or (PStr ''Unknown'') (c_type c)) sample_conversations)"
proof -
  note a = combine_notes_and_conversations_permutation [OF sample_timeline sample_nonempty]
  from sample_timeline a show ?thesis by blast
qed

lemma conv_item_unknown: "\<not> user_is_dict conv \<Longrightarrow> i_user (conv_item conv) = PStr ''Unknown''"
  by (auto simp: user_is_dict_def conv_item_def user_info_of_def dict_get_def get_or_def
      split: option.splits pyval.splits)

text \<open>
  Claim C9. A conversation entry whose \<open>user\<close> is absent or is not a dictionary does not
  make \<open>combine_notes_and_conversations\<close> raise, and its entry in the returned list has
  the author \<open>Unknown\<close>. The function returns whenever the notes' \<open>addedBy\<close> and the time
  keys allow it (two conditions that do not read \<open>user\<close>).
\<close>
theorem combine_malformed_user:
  assumes "list_all note_ok nts" "uniform_times nts convs" "conv \<in> set convs" "\<not> user_is_dict conv"
  shows "\<exists>tline. combine_notes_and_conversations nts convs = Inr tline \<and>
           Entry (conv_item conv) \<in> set tline \<and> i_user (conv_item conv) = PStr ''Unknown''"
proof -
  from combine_returns[OF assms(1,2)] obtain tline where tline: "combine_notes_and_conversations nts convs = Inr tline"
    by blast
  then obtain ns items where i: "note_items nts = Inr ns"
    "sort_by_time (ns @ map conv_item convs) = Inr items"
    "tline = (if items \<noteq> [] then map Entry items else [NoHistory no_history])"
    by (rule combine_Inr)
  have "set items = set (ns @ map conv_item convs)"
    using sort_by_time_mset[OF i(2)] by (metis set_mset_mset)
  with assms(3) have "conv_item conv \<in> set items" by auto
  then have "Entry (conv_item conv) \<in> set tline" using i(3) by auto
  with tline conv_item_unknown[OF assms(4)] show ?thesis by blast
qed

lemma sample_reply_malformed:
  "sample_reply \<in> set sample_conversations \<and> \<not> user_is_dict sample_reply"
  by (simp add: sample_conversations_def sample_reply_def user_is_dict_def)

theorem combine_malformed_user_witness:
  "list_all note_ok sample_notes \<and> uniform_times sample_notes sample_conversations \<and>
   sample_reply \<in> set sample_conversations \<and> \<not> user_is_dict sample_reply \<and>
   (\<exists>tline. combine_notes_and_conversations sample_notes sample_conversations = Inr tline \<and>
      Entry (conv_item sample_reply) \<in> set tline \<and>
      i_user (conv_item sample_reply) = PStr ''Unknown'')"
proof -
  note a = combine_malformed_user [OF sample_inputs_ok [THEN conjunct1]
      sample_inputs_ok [THEN conjunct2] sample_reply_malformed [THEN conjunct1]
      sample_reply_malformed [THEN conjunct2]]
  from sample_inputs_ok sample_reply_malformed a show ?thesis by blast
qed

section \<open>Properties of the identity reconciliation\<close>

lemma set_append_new: "set (append_new x m) = insert x (set m)"
  by (auto simp: append_new_def)

lemma distinct_append_new: "distinct m \<Longrightarrow> distinct (append_new x m)"
  by (auto simp: append_new_def)

lemma scan_subject_and_date_match:
  "subject_and_date_equal sub cr t \<Longrightarrow>
   scan_subject_and_date tid sub cr (t # ts) m =
     (case s_ticket_id t of
        None \<Rightarrow> append_new tid m
      | Some _ \<Rightarrow> scan_subject_and_date tid sub cr ts (append_new tid m))"
  by (cases "s_ticket_id t")
     (auto simp: subject_and_date_equal_def syncro_has_subject_and_date_def Let_def)

lemma scan_subject_and_date_no_match:
  "\<not> subject_and_date_equal sub cr t \<Longrightarrow>
   scan_subject_and_date tid sub cr (t # ts) m = scan_subject_and_date tid sub cr ts m"
  by (auto simp: subject_and_date_equal_def syncro_has_subject_and_date_def Let_def)

lemma in_scan_subject_and_date:
  "x \<in> set (scan_subject_and_date tid sub cr ts m) \<longleftrightarrow>
     x \<in> set m \<or> (x = tid \<and> (\<exists>t \<in> set ts. subject_and_date_equal sub cr t))"
proof (induction ts arbitrary: m)
  case Nil
  then show ?case by simp
next
  case (Cons t ts)
  show ?case
  proof (cases "subject_and_date_equal sub cr t")
    case True
    then show ?thesis
      by (cases "s_ticket_id t")
         (auto simp: scan_subject_and_date_match Cons.IH set_append_new
            simp del: scan_subject_and_date.simps)
  next
    case False
    then show ?thesis
      by (auto simp: scan_subject_and_date_no_match Cons.IH
          simp del: scan_subject_and_date.simps)
  qed
qed

lemma distinct_scan_subject_and_date:
  "distinct m \<Longrightarrow> distinct (scan_subject_and_date tid sub cr ts m)"
  by (induction ts arbitrary: m) (auto simp: Let_def distinct_append_new split: option.splits)

lemma in_compare_loop_subject_and_date:
  "x \<in> set (compare_loop_subject_and_date src dst m) \<longleftrightarrow>
     x \<in> set m \<or> (\<exists>info. (x, info) \<in> set src \<and> has_subject_and_date info \<and>
        (\<exists>t \<in> set dst. subject_and_date_equal (get_or SNone (t_subject info))
                           (get_or SNone (t_created_time info)) t))"
proof (induction src arbitrary: m)
  case Nil
  then show ?case by simp
next
  case (Cons p src)
  obtain tid info where p: "p = (tid, info)" by (cases p)
  show ?case
  proof (cases "has_subject_and_date info")
    case True
    then have "compare_loop_subject_and_date (p # src) dst m =
        compare_loop_subject_and_date src dst
          (scan_subject_and_date tid (get_or SNone (t_subject info))
             (get_or SNone (t_created_time info)) dst m)"
      by (simp add: p has_subject_and_date_def Let_def)
    then show ?thesis using True
      by (auto simp: Cons.IH in_scan_subject_and_date p
          simp del: compare_loop_subject_and_date.simps)
  next
    case False
    then have "compare_loop_subject_and_date (p # src) dst m =
        compare_loop_subject_and_date src dst m"
      by (auto simp: p has_subject_and_date_def Let_def)
    then show ?thesis using False
      by (auto simp: Cons.IH p simp del: compare_loop_subject_and_date.simps)
  qed
qed

lemma distinct_compare_loop_subject_and_date:
  "distinct m \<Longrightarrow> distinct (compare_loop_subject_and_date src dst m)"
proof (induction src arbitrary: m)
  case Nil
  then show ?case by simp
next
  case (Cons p src)
  obtain tid info where p: "p = (tid, info)" by (cases p)
  show ?case unfolding p using Cons
    by (auto simp: Let_def distinct_scan_subject_and_date)
qed

lemmas sample_ticket_defs = ticket_45_def ticket_77_def ticket_march_def ticket_april_def
  ticket_no_created_time_def ticket_null_subject_def ticket_empty_subject_def blank_ticket_def
  syncro_4521_def syncro_printer_def syncro_printer_z_def syncro_printer_77_def

text \<open>
  Claim C8. The identifier of a source ticket is in the result of
  \<open>compare_tickets_by_subject_and_date\<close> exactly when the ticket has a subject and a
  creation time and some destination ticket, with a subject and a creation time of its
  own, has the equal subject and the equal creation time, both compared as the values
  they are; the result lists no identifier twice.
\<close>
theorem compare_tickets_by_subject_and_date_exact:
  "(ticket_id \<in> set (compare_tickets_by_subject_and_date superops_tickets syncro_tickets) \<longleftrightarrow>
      (\<exists>info. (ticket_id, info) \<in> set superops_tickets \<and> has_subject_and_date info \<and>
         (\<exists>t \<in> set syncro_tickets. syncro_has_subject_and_date t \<and>
            get_or SNone (t_subject info) = get_or SNone (s_subject t) \<and>
            get_or SNone (t_created_time info) = get_or SNone (s_created_at t)))) \<and>
   distinct (compare_tickets_by_subject_and_date superops_tickets syncro_tickets)"
  by (simp add: compare_tickets_by_subject_and_date_def in_compare_loop_subject_and_date
      distinct_compare_loop_subject_and_date subject_and_date_equal_def)

theorem compare_tickets_by_subject_and_date_exact_witness:
  "SStr ''t-77'' \<in> set (compare_tickets_by_subject_and_date [(SStr ''t-77'', ticket_77)]
                          [syncro_printer_z, syncro_printer]) \<and>
   SStr ''t-77'' \<notin> set (compare_tickets_by_subject_and_date [(SStr ''t-77'', ticket_77)]
                          [syncro_printer_z]) \<and>
   distinct (compare_tickets_by_subject_and_date [(SStr ''t-77'', ticket_77)]
               [syncro_printer_z, syncro_printer])"
proof -
  note a = compare_tickets_by_subject_and_date_exact [where ticket_id = "SStr ''t-77''"
      and superops_tickets = "[(SStr ''t-77'', ticket_77)]"
      and syncro_tickets = "[syncro_printer_z, syncro_printer]"]
  note b = compare_tickets_by_subject_and_date_exact [where ticket_id = "SStr ''t-77''"
      and superops_tickets = "[(SStr ''t-77'', ticket_77)]"
      and syncro_tickets = "[syncro_printer_z]"]
  have ex: "\<exists>info. (SStr ''t-77'', info) \<in> set [(SStr ''t-77'', ticket_77)] \<and> has_subject_and_date info \<and>
         (\<exists>t \<in> set [syncro_printer_z, syncro_printer]. syncro_has_subject_and_date t \<and>
            get_or SNone (t_subject info) = get_or SNone (s_subject t) \<and>
            get_or SNone (t_created_time info) = get_or SNone (s_created_at t))"
    by (simp add: sample_ticket_defs has_subject_and_date_def syncro_has_subject_and_date_def get_or_def)
  have nex: "\<not> (\<exists>info. (SStr ''t-77'', info) \<in> set [(SStr ''t-77'', ticket_77)] \<and> has_subject_and_date info \<and>
         (\<exists>t \<in> set [syncro_printer_z]. syncro_has_subject_and_date t \<and>
            get_or SNone (t_subject info) = get_or SNone (s_subject t) \<and>
            get_or SNone (t_created_time info) = get_or SNone (s_created_at t)))"
    by (simp add: sample_ticket_defs has_subject_and_date_def syncro_has_subject_and_date_def get_or_def)
  from a ex b nex show ?thesis by blast
qed

lemma str_of_nat_nonempty: "str_of_nat n \<noteq> []"
  by (subst str_of_nat.simps) simp

lemma py_str_nonempty: "truthy d \<Longrightarrow> py_str d \<noteq> []"
  by (cases d) (auto simp: str_of_nat_nonempty)

lemma scan_subject_match:
  assumes "truthy d" "display_id_in_subject d t"
  shows "scan_subject d (t # ts) m = scan_subject d ts (append_new d m)"
proof -
  from assms(2) obtain s where s: "s_subject t = Some (SStr s)" "sublist (py_str d) s"
    by (auto simp: display_id_in_subject_def split: option.splits scalar.splits)
  have "s \<noteq> []" using s(2) py_str_nonempty[OF assms(1)] by auto
  with s show ?thesis by (simp add: Let_def get_or_def)
qed

lemma scan_subject_no_match:
  assumes "subject_ok t" "\<not> display_id_in_subject d t"
  shows "scan_subject d (t # ts) m = scan_subject d ts m"
  using assms
  by (auto simp: display_id_in_subject_def subject_ok_def Let_def get_or_def
      split: option.splits scalar.splits)

lemma scan_subject_no_match_any:
  assumes "\<not> display_id_in_subject d t"
  shows "scan_subject d (t # ts) m = scan_subject d ts m \<or> scan_subject d (t # ts) m = m"
  using assms
  by (auto simp: display_id_in_subject_def Let_def get_or_def
      split: option.splits scalar.splits)

lemma in_scan_subject:
  assumes "list_all subject_ok ts" "truthy d"
  shows "x \<in> set (scan_subject d ts m) \<longleftrightarrow>
     x \<in> set m \<or> (x = d \<and> (\<exists>t \<in> set ts. display_id_in_subject d t))"
  using assms(1)
proof (induction ts arbitrary: m)
  case Nil
  then show ?case by simp
next
  case (Cons t ts)
  then have ok: "subject_ok t" and ih: "\<And>m. x \<in> set (scan_subject d ts m) \<longleftrightarrow>
     x \<in> set m \<or> (x = d \<and> (\<exists>t \<in> set ts. display_id_in_subject d t))" by auto
  show ?case
  proof (cases "display_id_in_subject d t")
    case True
    then show ?thesis
      by (auto simp: scan_subject_match[OF assms(2) True] ih set_append_new
          simp del: scan_subject.simps)
  next
    case False
    then show ?thesis
      by (auto simp: scan_subject_no_match[OF ok False] ih simp del: scan_subject.simps)
  qed
qed

lemma in_scan_subject_sound:
  assumes "truthy d" "x \<in> set (scan_subject d ts m)"
  shows "x \<in> set m \<or> (x = d \<and> (\<exists>t \<in> set ts. display_id_in_subject d t))"
  using assms(2)
proof (induction ts arbitrary: m)
  case Nil
  then show ?case by simp
next
  case (Cons t ts)
  show ?case
  proof (cases "display_id_in_subject d t")
    case True
    with Cons.prems have "x \<in> set (scan_subject d ts (append_new d m))"
      by (simp add: scan_subject_match[OF assms(1) True] del: scan_subject.simps)
    from Cons.IH[OF this] True show ?thesis by (auto simp: set_append_new)
  next
    case False
    from scan_subject_no_match_any[OF False, of ts m] Cons.prems
    have "x \<in> set (scan_subject d ts m) \<or> x \<in> set m" by (auto simp del: scan_subject.simps)
    with Cons.IH[of m] show ?thesis by auto
  qed
qed

lemma distinct_scan_subject: "distinct m \<Longrightarrow> distinct (scan_subject d ts m)"
  by (induction ts arbitrary: m)
     (auto simp: Let_def distinct_append_new split: option.splits scalar.splits)

lemma compare_loop_subject_step:
  "has_subject_and_display_id info \<Longrightarrow>
   compare_loop_subject ((tid, info) # src) dst m =
     compare_loop_subject src dst (scan_subject (get_or SNone (t_displayId info)) dst m)"
  by (simp add: has_subject_and_display_id_def Let_def)

lemma compare_loop_subject_skip:
  "\<not> has_subject_and_display_id info \<Longrightarrow>
   compare_loop_subject ((tid, info) # src) dst m = compare_loop_subject src dst m"
  by (auto simp: has_subject_and_display_id_def Let_def)

lemma in_compare_loop_subject:
  assumes "list_all subject_ok dst"
  shows "x \<in> set (compare_loop_subject src dst m) \<longleftrightarrow>
     x \<in> set m \<or> (\<exists>tid info. (tid, info) \<in> set src \<and> has_subject_and_display_id info \<and>
        get_or SNone (t_displayId info) = x \<and> (\<exists>t \<in> set dst. display_id_in_subject x t))"
proof (induction src arbitrary: m)
  case Nil
  then show ?case by simp
next
  case (Cons p src)
  obtain tid info where p: "p = (tid, info)" by (cases p)
  show ?case
  proof (cases "has_subject_and_display_id info")
    case True
    then have tr: "truthy (get_or SNone (t_displayId info))"
      by (simp add: has_subject_and_display_id_def)
    show ?thesis using True
      by (auto simp: p compare_loop_subject_step Cons.IH in_scan_subject[OF assms tr]
          simp del: compare_loop_subject.simps)
  next
    case False
    then show ?thesis
      by (auto simp: p compare_loop_subject_skip Cons.IH simp del: compare_loop_subject.simps)
  qed
qed

lemma in_compare_loop_subject_sound:
  assumes "x \<in> set (compare_loop_subject src dst m)"
  shows "x \<in> set m \<or> (\<exists>tid info. (tid, info) \<in> set src \<and> has_subject_and_display_id info \<and>
        get_or SNone (t_displayId info) = x \<and> (\<exists>t \<in> set dst. display_id_in_subject x t))"
  using assms
proof (induction src arbitrary: m)
  case Nil
  then show ?case by simp
next
  case (Cons p src)
  obtain tid info where p: "p = (tid, info)" by (cases p)
  show ?case
  proof (cases "has_subject_and_display_id info")
    case True
    then have tr: "truthy (get_or SNone (t_displayId info))"
      by (simp add: has_subject_and_display_id_def)
    from Cons.prems True
    have "x \<in> set (compare_loop_subject src dst (scan_subject (get_or SNone (t_displayId info)) dst m))"
      by (simp add: p compare_loop_subject_step del: compare_loop_subject.simps)
    from Cons.IH[OF this] in_scan_subject_sound[OF tr, of x dst m] True
    show ?thesis by (auto simp: p)
  next
    case False
    with Cons.prems have "x \<in> set (compare_loop_subject src dst m)"
      by (simp add: p compare_loop_subject_skip del: compare_loop_subject.simps)
    from Cons.IH[OF this] show ?thesis by (auto simp: p)
  qed
qed

lemma distinct_compare_loop_subject:
  "distinct m \<Longrightarrow> distinct (compare_loop_subject src dst m)"
proof (induction src arbitrary: m)
  case Nil
  then show ?case by simp
next
  case (Cons p src)
  obtain tid info where p: "p = (tid, info)" by (cases p)
  show ?case unfolding p using Cons
    by (auto simp: Let_def distinct_scan_subject)
qed

lemma display_id_in_subject_iff:
  "display_id_in_subject d t \<longleftrightarrow> (\<exists>s. s_subject t = Some (SStr s) \<and> sublist (py_str d) s)"
  by (auto simp: display_id_in_subject_def split: option.splits scalar.splits)

text \<open>
  Claim C3. A display id is in the result of \<open>compare_tickets_by_subject\<close> exactly when
  a source ticket with a subject carries it and its printed form occurs, as a substring,
  in the subject of some destination ticket; the result lists no display id twice. A
  display id in the result always has such a pair; the converse needs the destination
  subjects to be strings (or absent), since a subject that is a number ends the scan of
  the source ticket.
\<close>
theorem compare_tickets_by_subject_substring:
  "(list_all subject_ok syncro_tickets \<longrightarrow>
     (displayId \<in> set (compare_tickets_by_subject superops_tickets syncro_tickets) \<longleftrightarrow>
        (\<exists>ticket_id info. (ticket_id, info) \<in> set superops_tickets \<and>
           has_subject_and_display_id info \<and> get_or SNone (t_displayId info) = displayId \<and>
           (\<exists>t \<in> set syncro_tickets. \<exists>s. s_subject t = Some (SStr s) \<and>
              sublist (py_str displayId) s)))) \<and>
   (displayId \<in> set (compare_tickets_by_subject superops_tickets syncro_tickets) \<longrightarrow>
        (\<exists>ticket_id info. (ticket_id, info) \<in> set superops_tickets \<and>
           has_subject_and_display_id info \<and> get_or SNone (t_displayId info) = displayId \<and>
           (\<exists>t \<in> set syncro_tickets. \<exists>s. s_subject t = Some (SStr s) \<and>
              sublist (py_str displayId) s))) \<and>
   distinct (compare_tickets_by_subject superops_tickets syncro_tickets)"
proof (intro conjI impI)
  assume ok: "list_all subject_ok syncro_tickets"
  show "displayId \<in> set (compare_tickets_by_subject superops_tickets syncro_tickets) \<longleftrightarrow>
        (\<exists>ticket_id info. (ticket_id, info) \<in> set superops_tickets \<and>
           has_subject_and_display_id info \<and> get_or SNone (t_displayId info) = displayId \<and>
           (\<exists>t \<in> set syncro_tickets. \<exists>s. s_subject t = Some (SStr s) \<and>
              sublist (py_str displayId) s))"
    by (simp add: compare_tickets_by_subject_def in_compare_loop_subject[OF ok]
        display_id_in_subject_iff)
next
  assume "displayId \<in> set (compare_tickets_by_subject superops_tickets syncro_tickets)"
  then show "\<exists>ticket_id info. (ticket_id, info) \<in> set superops_tickets \<and>
           has_subject_and_display_id info \<and> get_or SNone (t_displayId info) = displayId \<and>
           (\<exists>t \<in> set syncro_tickets. \<exists>s. s_subject t = Some (SStr s) \<and>
              sublist (py_str displayId) s)"
    using in_compare_loop_subject_sound[of displayId superops_tickets syncro_tickets "[]"]
    by (simp add: compare_tickets_by_subject_def display_id_in_subject_iff)
next
  show "distinct (compare_tickets_by_subject superops_tickets syncro_tickets)"
    by (simp add: compare_tickets_by_subject_def distinct_compare_loop_subject)
qed

theorem compare_tickets_by_subject_substring_witness:
  "list_all subject_ok [syncro_4521] \<and>
   py_str (SInt 45) = ''45'' \<and> sublist ''45'' ''Printer issue #4521'' \<and>
   SInt 45 \<in> set (compare_tickets_by_subject [(SStr ''t-45'', ticket_45)] [syncro_4521]) \<and>
   distinct (compare_tickets_by_subject [(SStr ''t-45'', ticket_45)] [syncro_4521]) \<and>
   (\<exists>ticket_id info. (ticket_id, info) \<in> set [(SStr ''t-45'', ticket_45)] \<and>
      has_subject_and_display_id info \<and> get_or SNone (t_displayId info) = SInt 45 \<and>
      (\<exists>t \<in> set [syncro_4521]. \<exists>s. s_subject t = Some (SStr s) \<and> sublist (py_str (SInt 45)) s))"
proof -
  have ok: "list_all subject_ok [syncro_4521]"
    by (simp add: subject_ok_def syncro_4521_def get_or_def)
  have s: "py_str (SInt 45) = ''45''"
    by (simp add: str_of_nat.simps digit_char_def)
  have n: "str_of_nat 45 = ''45''"
    by (simp add: str_of_nat.simps digit_char_def)
  have sub: "sublist ''45'' ''Printer issue #4521''"
    by (simp add: sublist_code)
  have ex: "\<exists>ticket_id info. (ticket_id, info) \<in> set [(SStr ''t-45'', ticket_45)] \<and>
      has_subject_and_display_id info \<and> get_or SNone (t_displayId info) = SInt 45 \<and>
      (\<exists>t \<in> set [syncro_4521]. \<exists>s. s_subject t = Some (SStr s) \<and> sublist (py_str (SInt 45)) s)"
    using sub by (simp add: n sample_ticket_defs has_subject_and_display_id_def get_or_def)
  note t = compare_tickets_by_subject_substring [where syncro_tickets = "[syncro_4521]"
      and displayId = "SInt 45" and superops_tickets = "[(SStr ''t-45'', ticket_45)]"]
  have mem: "SInt 45 \<in> set (compare_tickets_by_subject [(SStr ''t-45'', ticket_45)] [syncro_4521])"
    using t [THEN conjunct1, rule_format, OF ok] ex by blast
  note src_of = t [THEN conjunct2, THEN conjunct1, rule_format, OF mem]
  note d = t [THEN conjunct2, THEN conjunct2]
  from ok s sub mem d src_of show ?thesis by blast
qed

section \<open>Properties of the migration\<close>






lemma filter_process_individual_ticket:
  "filter is_create_call (process_individual_ticket e client tid info matched) =
   filter is_create_call (fst (process_body e client tid info matched))"
  by (auto simp: process_individual_ticket_def split: prod.splits option.splits)






lemma replay_step:
  "filter is_comment_call (fst (replay_timeline e tid (Entry a # rest))) =
     (if \<not> is_description a \<and> comment_builds e a
      then [Call_create_comment (formatted_comment_of e a) tid] else []) @
     filter is_comment_call (fst (replay_timeline e tid rest)) \<and>
   snd (replay_timeline e tid (Entry a # rest)) = snd (replay_timeline e tid rest)"
  by (auto simp: is_description_def formatted_comment_of_def comment_builds_def
      split: prod.splits sum.splits)

lemma replay_entries:
  "snd (replay_timeline e tid (map Entry entries)) = None \<and>
   filter is_comment_call (fst (replay_timeline e tid (map Entry entries))) =
     map (\<lambda>entry. Call_create_comment (formatted_comment_of e entry) tid)
       (filter (\<lambda>entry. \<not> is_description entry \<and> comment_builds e entry) entries)"
proof (induction entries)
  case Nil
  then show ?case by simp
next
  case (Cons a entries)
  then show ?case
    by (simp add: replay_step del: replay_timeline.simps)
qed

text \<open>
  Claim C7. In the replay of a timeline of entries, an entry of type \<open>DESCRIPTION\<close> gives
  no comment call, and every other entry gives exactly one, in the order of the timeline,
  provided its comment can be built; the loop ends without an exception.
\<close>
theorem replay_skips_descriptions:
  assumes "\<forall>entry \<in> set entries. \<not> is_description entry \<longrightarrow> comment_builds e entry"
  shows "filter is_comment_call (fst (replay_timeline e tid (map Entry entries))) =
           map (\<lambda>entry. Call_create_comment (formatted_comment_of e entry) tid)
             (filter (\<lambda>entry. \<not> is_description entry) entries) \<and>
         snd (replay_timeline e tid (map Entry entries)) = None"
proof -
  have "filter (\<lambda>entry. \<not> is_description entry \<and> comment_builds e entry) entries =
        filter (\<lambda>entry. \<not> is_description entry) entries"
    using assms by (intro filter_cong) auto
  with replay_entries[of e tid entries] show ?thesis by simp
qed

theorem replay_skips_descriptions_witness:
  "filter is_comment_call
     (fst (replay_timeline (sample_env []) (PScalar (SInt 501))
        (map Entry [conv_item sample_description, note_item_1, note_item_2]))) =
     [Call_create_comment (PStr ''called back'') (PScalar (SInt 501)),
      Call_create_comment (PStr ''replaced toner'') (PScalar (SInt 501))] \<and>
   length (filter is_comment_call
     (fst (replay_timeline (sample_env []) (PScalar (SInt 501))
        (map Entry [conv_item sample_description, note_item_1, note_item_2])))) = 2 \<and>
   snd (replay_timeline (sample_env []) (PScalar (SInt 501))
        (map Entry [conv_item sample_description, note_item_1, note_item_2])) = None"
proof -
  have h: "\<forall>entry \<in> set [conv_item sample_description, note_item_1, note_item_2].
      \<not> is_description entry \<longrightarrow> comment_builds (sample_env []) entry"
    by (simp add: comment_builds_def sample_env_def)
  note t = replay_skips_descriptions [OF h, of "PScalar (SInt 501)"]
  have f: "map (\<lambda>entry. Call_create_comment (formatted_comment_of (sample_env []) entry) (PScalar (SInt 501)))
             (filter (\<lambda>entry. \<not> is_description entry)
                [conv_item sample_description, note_item_1, note_item_2]) =
     [Call_create_comment (PStr ''called back'') (PScalar (SInt 501)),
      Call_create_comment (PStr ''replaced toner'') (PScalar (SInt 501))]"
    by (simp add: is_description_def conv_item_def sample_description_def note_item_1_def
        note_item_2_def get_or_def formatted_comment_of_def sample_env_def)
  from t f show ?thesis by simp
qed

lemma gated_ticket_trace:
  assumes "\<not> truthy (get_or SNone (t_created_time info))" "subject_is_text info"
  shows "process_individual_ticket e client ticket_id info matched = [Warning_missing_field ticket_id]"
proof -
  from assms(2) obtain subject where "subject_with_id info = Inr subject"
    by (auto simp: subject_is_text_def subject_with_id_def split: scalar.splits)
  with assms(1) show ?thesis
    by (simp add: process_individual_ticket_def process_body_def Let_def)
qed

lemma gated_batch_trace:
  "list_all (\<lambda>(tid, info). \<not> truthy (get_or SNone (t_created_time info)) \<and> subject_is_text info)
     tickets \<Longrightarrow>
   concat (map (\<lambda>(ticket_id, info). process_individual_ticket e client ticket_id info matched)
             tickets) =
   map (\<lambda>(tid, info). Warning_missing_field tid) tickets"
  by (induction tickets) (auto simp: gated_ticket_trace)

lemma scan_subject_log_compares:
  assumes "list_all subject_ok dst" "t \<in> set dst" "s_subject t = Some (SStr s)" "s \<noteq> []"
  shows "Compared d s (sublist (py_str d) s) \<in> set (scan_subject_log d dst)"
  using assms(1,2)
proof (induction dst)
  case Nil
  then show ?case by simp
next
  case (Cons a dst)
  from Cons.prems(1) have ok: "subject_ok a" "list_all subject_ok dst" by auto
  show ?case
  proof (cases "a = t")
    case True
    with assms(3,4) show ?thesis by (simp add: get_or_def)
  next
    case False
    with Cons.prems(2) have "t \<in> set dst" by simp
    from Cons.IH [OF ok(2) this] ok(1) show ?thesis
      by (auto simp: subject_ok_def Let_def split: scalar.splits)
  qed
qed

lemma compare_log_holds_scan:
  assumes "(tid, i) \<in> set tickets" "has_subject_and_display_id i"
  shows "set (scan_subject_log (get_or SNone (t_displayId i)) dst) \<subseteq>
         set (compare_tickets_by_subject_log tickets dst)"
  using assms(1)
proof (induction tickets)
  case Nil
  then show ?case by simp
next
  case (Cons p tickets)
  obtain a b where p: "p = (a, b)" by (cases p)
  show ?case
  proof (cases "p = (tid, i)")
    case True
    with assms(2) p show ?thesis
      by (auto simp: has_subject_and_display_id_def Let_def)
  next
    case False
    with Cons.prems have "(tid, i) \<in> set tickets" by simp
    from Cons.IH [OF this] show ?thesis
      by (auto simp: p Let_def)
  qed
qed

lemma compare_log_skips:
  assumes "\<not> has_subject_and_display_id i"
  shows "compare_tickets_by_subject_log [(tid, i)] dst =
     [Compare_skipped_ticket (if truthy (get_or SNone (t_subject i))
                              then get_or SNone (t_displayId i) else tid)]"
  using assms by (auto simp: has_subject_and_display_id_def Let_def)

text \<open>
  Claim C4, as amended. A ticket whose creation time is missing and whose subject is a
  string (or absent) is skipped by \<open>process_individual_ticket\<close> with the warning alone:
  no error, no call to the destination, whatever the list of matched ids is. The skip
  does not come before the matching. For a customer that is found,
  \<open>process_customer_tickets\<close> writes the whole log of \<open>compare_tickets_by_subject\<close> and
  the matched ids first, and for a batch of such tickets one warning per ticket after
  them. In that log a ticket with a subject and a display id has been tested against
  every destination subject that is a non-empty string (the destination subjects being
  strings or absent), with or without a creation time; a ticket without a subject or a
  display id is skipped by the comparison and tested against none.
\<close>
theorem missing_created_time_skipped:
  "(\<not> truthy (get_or SNone (t_created_time info)) \<and> subject_is_text info \<longrightarrow>
      process_individual_ticket e client ticket_id info matched =
        [Warning_missing_field ticket_id]) \<and>
   (get_customer_id_by_name e client = Inr cid \<and> truthy cid \<and>
    syncro_tickets_for e client = Inr dst \<and>
    list_all (\<lambda>(tid, info). \<not> truthy (get_or SNone (t_created_time info)) \<and>
                subject_is_text info) tickets \<longrightarrow>
      process_customer_tickets e client tickets =
        compare_tickets_by_subject_log tickets dst @
        Info_matched_ids (compare_tickets_by_subject tickets dst) #
        map (\<lambda>(tid, info). Warning_missing_field tid) tickets) \<and>
   ((tid, i) \<in> set tickets \<and> has_subject_and_display_id i \<and> list_all subject_ok dst \<and>
    t \<in> set dst \<and> s_subject t = Some (SStr s) \<and> s \<noteq> [] \<longrightarrow>
      Compared (get_or SNone (t_displayId i)) s
        (sublist (py_str (get_or SNone (t_displayId i))) s)
        \<in> set (compare_tickets_by_subject_log tickets dst)) \<and>
   (\<not> has_subject_and_display_id i \<longrightarrow>
      compare_tickets_by_subject_log [(tid, i)] dst =
        [Compare_skipped_ticket (if truthy (get_or SNone (t_subject i))
                                 then get_or SNone (t_displayId i) else tid)])"
proof (intro conjI impI)
  assume "\<not> truthy (get_or SNone (t_created_time info)) \<and> subject_is_text info"
  then show "process_individual_ticket e client ticket_id info matched =
        [Warning_missing_field ticket_id]"
    by (simp add: gated_ticket_trace)
next
  assume a: "get_customer_id_by_name e client = Inr cid \<and> truthy cid \<and>
    syncro_tickets_for e client = Inr dst \<and>
    list_all (\<lambda>(tid, info). \<not> truthy (get_or SNone (t_created_time info)) \<and>
                subject_is_text info) tickets"
  then have "concat (map (\<lambda>(ticket_id, info). process_individual_ticket e client ticket_id info
                 (compare_tickets_by_subject tickets dst)) tickets) =
             map (\<lambda>(tid, info). Warning_missing_field tid) tickets"
    by (simp add: gated_batch_trace)
  with a show "process_customer_tickets e client tickets =
        compare_tickets_by_subject_log tickets dst @
        Info_matched_ids (compare_tickets_by_subject tickets dst) #
        map (\<lambda>(tid, info). Warning_missing_field tid) tickets"
    by (simp add: process_customer_tickets_def Let_def)
next
  assume a: "(tid, i) \<in> set tickets \<and> has_subject_and_display_id i \<and> list_all subject_ok dst \<and>
    t \<in> set dst \<and> s_subject t = Some (SStr s) \<and> s \<noteq> []"
  then have "Compared (get_or SNone (t_displayId i)) s
        (sublist (py_str (get_or SNone (t_displayId i))) s)
        \<in> set (scan_subject_log (get_or SNone (t_displayId i)) dst)"
    using scan_subject_log_compares [of dst t s "get_or SNone (t_displayId i)"] by blast
  with a compare_log_holds_scan [of tid i tickets dst]
  show "Compared (get_or SNone (t_displayId i)) s
        (sublist (py_str (get_or SNone (t_displayId i))) s)
        \<in> set (compare_tickets_by_subject_log tickets dst)"
    by blast
next
  assume "\<not> has_subject_and_display_id i"
  then show "compare_tickets_by_subject_log [(tid, i)] dst =
        [Compare_skipped_ticket (if truthy (get_or SNone (t_subject i))
                                 then get_or SNone (t_displayId i) else tid)]"
    by (rule compare_log_skips)
qed

theorem missing_created_time_skipped_witness:
  "\<not> truthy (get_or SNone (t_created_time ticket_no_created_time)) \<and>
   subject_is_text ticket_no_created_time \<and>
   process_individual_ticket (sample_env [syncro_printer_77]) ''Acme'' (SStr ''t-77'')
     ticket_no_created_time [SInt 77] = [Warning_missing_field (SStr ''t-77'')] \<and>
   get_customer_id_by_name (sample_env [syncro_printer_77]) ''Acme'' = Inr (SInt 1) \<and>
   truthy (SInt 1) \<and>
   syncro_tickets_for (sample_env [syncro_printer_77]) ''Acme'' = Inr [syncro_printer_77] \<and>
   list_all (\<lambda>(tid, info). \<not> truthy (get_or SNone (t_created_time info)) \<and>
               subject_is_text info) [(SStr ''t-77'', ticket_no_created_time)] \<and>
   process_customer_tickets (sample_env [syncro_printer_77]) ''Acme''
       [(SStr ''t-77'', ticket_no_created_time)] =
     compare_tickets_by_subject_log [(SStr ''t-77'', ticket_no_created_time)] [syncro_printer_77] @
     Info_matched_ids
       (compare_tickets_by_subject [(SStr ''t-77'', ticket_no_created_time)] [syncro_printer_77]) #
     map (\<lambda>(tid, info). Warning_missing_field tid) [(SStr ''t-77'', ticket_no_created_time)] \<and>
   has_subject_and_display_id ticket_no_created_time \<and>
   list_all subject_ok [syncro_printer_77] \<and>
   s_subject syncro_printer_77 = Some (SStr ''Printer broken 77'') \<and>
   Compared (get_or SNone (t_displayId ticket_no_created_time)) ''Printer broken 77''
       (sublist (py_str (get_or SNone (t_displayId ticket_no_created_time))) ''Printer broken 77'')
     \<in> set (compare_tickets_by_subject_log [(SStr ''t-77'', ticket_no_created_time)]
              [syncro_printer_77]) \<and>
   \<not> has_subject_and_display_id ticket_empty_subject \<and>
   compare_tickets_by_subject_log [(SStr ''t-77'', ticket_empty_subject)] [syncro_printer_77] =
     [Compare_skipped_ticket (if truthy (get_or SNone (t_subject ticket_empty_subject))
                              then get_or SNone (t_displayId ticket_empty_subject)
                              else SStr ''t-77'')]"
proof -
  have a: "\<not> truthy (get_or SNone (t_created_time ticket_no_created_time)) \<and>
           subject_is_text ticket_no_created_time"
    by (simp add: subject_is_text_def sample_ticket_defs get_or_def)
  have b: "get_customer_id_by_name (sample_env [syncro_printer_77]) ''Acme'' = Inr (SInt 1) \<and>
      truthy (SInt 1) \<and>
      syncro_tickets_for (sample_env [syncro_printer_77]) ''Acme'' = Inr [syncro_printer_77] \<and>
      list_all (\<lambda>(tid, info). \<not> truthy (get_or SNone (t_created_time info)) \<and>
               subject_is_text info) [(SStr ''t-77'', ticket_no_created_time)]"
    using a by (simp add: sample_env_def)
  have c: "(SStr ''t-77'', ticket_no_created_time) \<in> set [(SStr ''t-77'', ticket_no_created_time)] \<and>
      has_subject_and_display_id ticket_no_created_time \<and>
      list_all subject_ok [syncro_printer_77] \<and>
      syncro_printer_77 \<in> set [syncro_printer_77] \<and>
      s_subject syncro_printer_77 = Some (SStr ''Printer broken 77'') \<and>
      ''Printer broken 77'' \<noteq> []"
    by (simp add: has_subject_and_display_id_def subject_ok_def sample_ticket_defs get_or_def)
  have d: "\<not> has_subject_and_display_id ticket_empty_subject"
    by (simp add: has_subject_and_display_id_def sample_ticket_defs get_or_def)
  note t1 = missing_created_time_skipped [where info = ticket_no_created_time
      and e = "sample_env [syncro_printer_77]" and client = "''Acme''"
      and ticket_id = "SStr ''t-77''" and matched = "[SInt 77]"
      and cid = "SInt 1" and dst = "[syncro_printer_77]"
      and tickets = "[(SStr ''t-77'', ticket_no_created_time)]"
      and tid = "SStr ''t-77''" and i = ticket_no_created_time
      and t = syncro_printer_77 and s = "''Printer broken 77''"]
  note t2 = missing_created_time_skipped [where dst = "[syncro_printer_77]"
      and tid = "SStr ''t-77''" and i = ticket_empty_subject]
  note r1 = t1 [THEN conjunct1, rule_format, OF a]
  note r2 = t1 [THEN conjunct2, THEN conjunct1, rule_format, OF b]
  note r3 = t1 [THEN conjunct2, THEN conjunct2, THEN conjunct1, rule_format, OF c]
  note r4 = t2 [THEN conjunct2, THEN conjunct2, THEN conjunct2, rule_format, OF d]
  from a b c d r1 r2 r3 r4 show ?thesis by blast
qed

text \<open>
  Claim C4 as stated fails: \<open>process_customer_tickets\<close> runs the comparison over the
  batch before it processes the first ticket. This ticket, with a subject and a display
  id and without a creation time, has been compared, and found, when it is skipped.
\<close>
theorem skipped_ticket_was_compared:
  "\<not> truthy (get_or SNone (t_created_time ticket_no_created_time)) \<and>
   process_customer_tickets (sample_env [syncro_printer_77]) ''Acme''
     [(SStr ''t-77'', ticket_no_created_time)] =
   [Compared (SInt 77) ''Printer broken 77'' True, Info_matched_ids [SInt 77],
    Warning_missing_field (SStr ''t-77'')]"
  by (simp add: process_customer_tickets_def sample_env_def sample_ticket_defs
      compare_tickets_by_subject_def get_or_def str_of_nat.simps digit_char_def sublist_code
      append_new_def process_individual_ticket_def process_body_def subject_with_id_def)

text \<open>
  A missing subject does not reach the warning: the subject is joined with the display
  id before the test, so \<open>null\<close> raises \<open>TypeError\<close>, logged as an error, and the empty
  string becomes the subject \<open>" 77"\<close> of a created ticket.
\<close>
lemma null_subject_is_an_error:
  "process_individual_ticket (sample_env []) ''Acme'' (SStr ''t-77'') ticket_null_subject [] =
     [Error_ticket (SStr ''t-77'') TypeError]"
  by (simp add: process_individual_ticket_def process_body_def subject_with_id_def
      sample_ticket_defs get_or_def)

lemma empty_subject_is_created:
  "process_individual_ticket (sample_env []) ''Acme'' (SStr ''t-77'') ticket_empty_subject [] =
     [Call_create_ticket [(''subject'', PStr '' 77''),
                          (''created_at'', PStr ''2024-05-01T00:00:00+0000'')],
      Error_ticket (SStr ''t-77'') AttributeError]"
  by (simp add: process_individual_ticket_def process_body_def subject_with_id_def
      sample_ticket_defs get_or_def str_of_nat.simps digit_char_def sample_env_def
      ticket_timeline_def extract_notes_and_conversations_def prepare_args_def
      create_unless_too_old_def sample_strptime_def dt_lt_def dt_fields_def replace_tzinfo_def
      cutoff_date_def after_create_def dict_get_def no_history_def)

text \<open>
  A second run does not create a ticket again: the subject of a created ticket ends
  with the display id, so the comparison finds the id in it, and a ticket whose display
  id is among the matched ids makes no creation call.
\<close>

lemma created_subject_holds_display_id:
  "subject_with_id info = Inr subject \<Longrightarrow>
   sublist (py_str (get_or SNone (t_displayId info))) subject"
proof -
  assume "subject_with_id info = Inr subject"
  then obtain s where "subject = (s @ '' '') @ py_str (get_or SNone (t_displayId info))"
    by (auto simp: subject_with_id_def split: scalar.splits)
  then show ?thesis by (simp only: sublist_append_leftI)
qed

lemma matched_ticket_is_not_created:
  assumes "get_or SNone (t_displayId info) \<in> set matched"
  shows "filter is_create_call (process_individual_ticket e client ticket_id info matched) = []"
proof -
  have "filter is_create_call (fst (process_body e client ticket_id info matched)) = []"
    using assms by (auto simp: process_body_def Let_def split: sum.splits)
  then show ?thesis by (simp add: filter_process_individual_ticket)
qed


section \<open>The aggregation reads one page of clients\<close>

text \<open>
  Claim C6 fails on the code. \<open>get_all_clients_with_tickets\<close> asks for the clients once
  (page 1, page size 100) and never for a second page, unlike \<open>get_tickets_for_client\<close>,
  which follows \<open>hasMore\<close>. On a source with 101 clients the run ends, returns the first
  100 and leaves out the client of page 2.
\<close>

theorem get_all_clients_with_tickets_first_page_only:
  "client_list many_clients 2 100 = Some [nth_client 100] \<and>
   map_option (map_sum id (map fst)) (get_all_clients_with_tickets many_clients) =
     Some (Inr (map (\<lambda>i. cl_name (nth_client i)) [0..<100])) \<and>
   cl_name (nth_client 100) \<notin> set (map (\<lambda>i. cl_name (nth_client i)) [0..<100])"
  by code_simp

end
